theory Spec2Isabelle
  imports Complex_Main "HOL-Library.Multiset" "HOL-Library.Product_Lexorder"
begin

section \<open>Data model\<close>

text \<open>
  Promotions and user profiles are Python dictionaries (\<^verbatim>\<open>Dict[str, Any]\<close>). The code
  reads them only through \<^verbatim>\<open>dict.get(key, default)\<close>, so every key the code reads is an
  optional field here: \<open>None\<close> is an absent key, and each reader below writes out the
  default the source passes to \<^verbatim>\<open>get\<close>. Python floats are modelled as real numbers:
  rounding, \<^verbatim>\<open>nan\<close> and \<^verbatim>\<open>inf\<close> are outside the model.
\<close>

record promotion =
  promo_id :: "string option"
  title :: "string option"
  description :: "string option"
  link :: "string option"
  categories :: "string list option"
  price_tier :: "string option"
  base_ctr :: "real option"
  score :: "real option"

text \<open>
  A user profile has no keys other than the three the code reads, so the empty dictionary
  is the profile with all three absent.
\<close>

record user_profile =
  user_type :: "string option"
  interests :: "string list option"
  budget_level :: "string option"

text \<open>The exceptions that the modelled code can raise, and the one value it cannot hold.\<close>

datatype error =
    ValueError \<comment> \<open>\<^verbatim>\<open>np.dot\<close> on arrays of different shapes\<close>
  | IndexError \<comment> \<open>a list index out of range\<close>
  | NotANumber \<comment> \<open>a division by a zero norm: NumPy continues with \<^verbatim>\<open>nan\<close>, the model stops\<close>
  | ModelError \<comment> \<open>the learned ranking model raised\<close>

text \<open>\<^verbatim>\<open>d.get(key, default)\<close> on an optional field.\<close>

definition dict_get :: "'a option \<Rightarrow> 'a \<Rightarrow> 'a" where
  "dict_get field dflt = (case field of None \<Rightarrow> dflt | Some v \<Rightarrow> v)"

section \<open>Placement: \<^verbatim>\<open>mcp_server/tools/optimize_ad_slots.py\<close>\<close>

text \<open>
  \<^verbatim>\<open>_calculate_insertion_positions(num_results, num_ads)\<close>: both arguments are lengths or
  a minimum of lengths in the only caller, hence natural numbers.
\<close>

definition calculate_insertion_positions :: "nat \<Rightarrow> nat \<Rightarrow> nat list" where
  "calculate_insertion_positions num_results num_ads =
     (if num_ads = 0 \<or> num_results < 2 then []
      else
        let positions =
              (if num_results \<le> 5 then
                 (if num_ads \<ge> 1 then [2] else []) @
                 (if num_ads \<ge> 2 \<and> num_results \<ge> 4 then [4] else [])
               else
                 [2] @
                 (if num_ads \<ge> 2 then [5] else []) @
                 (if num_ads \<ge> 3 \<and> num_results \<ge> 9 then [8] else []));
            positions = filter (\<lambda>pos. pos < num_results) positions
        in take num_ads positions)"

text \<open>
  The ad text (\<^verbatim>\<open>_generate_ad_copy(promotion, search_results, current_position)\<close>) is a
  parameter \<open>gen_ad\<close> of the placement functions: it is a pure function of its three
  arguments that returns a string, and nothing below depends on which string.

  One pass of the body of the \<^verbatim>\<open>for i, result in enumerate(search_results)\<close> loop of
  \<^verbatim>\<open>_optimize_insertion_strategy\<close>. The loop state is the pair
  (\<^verbatim>\<open>injected_results\<close>, \<^verbatim>\<open>promotion_index\<close>).
\<close>

definition insertion_step ::
  "(promotion \<Rightarrow> string list \<Rightarrow> nat \<Rightarrow> string) \<Rightarrow> string list \<Rightarrow> nat list \<Rightarrow> promotion list
     \<Rightarrow> nat \<times> string \<Rightarrow> string list \<times> nat \<Rightarrow> string list \<times> nat" where
  "insertion_step gen_ad search_results insertion_positions selected_promotions =
     (\<lambda>(i, result) (injected_results, promotion_index).
        let injected_results = injected_results @ [result] in
        if i + 1 \<in> set insertion_positions \<and> promotion_index < length selected_promotions then
          let promotion = selected_promotions ! promotion_index;
              ad_copy = gen_ad promotion search_results i
          in (injected_results @ [ad_copy], promotion_index + 1)
        else (injected_results, promotion_index))"

definition optimize_insertion_strategy ::
  "(promotion \<Rightarrow> string list \<Rightarrow> nat \<Rightarrow> string) \<Rightarrow> string list \<Rightarrow> promotion list \<Rightarrow> string list" where
  "optimize_insertion_strategy gen_ad search_results promotions =
     (if length search_results < 2 then search_results
      else
        let max_ads = min (length promotions) (min 3 (length search_results div 3)) in
        if max_ads = 0 then search_results
        else
          let selected_promotions = take max_ads promotions;
              insertion_positions =
                calculate_insertion_positions (length search_results) max_ads
          in fst (fold (insertion_step gen_ad search_results insertion_positions selected_promotions)
                       (enumerate 0 search_results) ([], 0)))"

text \<open>
  \<^verbatim>\<open>optimize_ad_slots_tool\<close>, the value under the key \<^verbatim>\<open>injected_results\<close>. The
  \<^verbatim>\<open>except\<close> branch returns \<^verbatim>\<open>search_results\<close>; with a list of strings and a list of
  dictionaries nothing in the \<^verbatim>\<open>try\<close> block raises, so it has no branch here.
\<close>

definition optimize_ad_slots_tool ::
  "(promotion \<Rightarrow> string list \<Rightarrow> nat \<Rightarrow> string) \<Rightarrow> string list \<Rightarrow> promotion list \<Rightarrow> string list" where
  "optimize_ad_slots_tool gen_ad search_results promotions =
     (if search_results = [] then []
      else if promotions = [] then search_results
      else optimize_insertion_strategy gen_ad search_results promotions)"

subsection \<open>The same placement with every output item tagged by its origin\<close>

text \<open>
  The source returns plain strings. To speak about which output items are sponsored, the
  functions below repeat the placement and tag each appended item with the
  \<^verbatim>\<open>append\<close> statement that produced it: \<open>Organic\<close> for
  \<^verbatim>\<open>injected_results.append(result)\<close>, \<open>Sponsored\<close> for
  \<^verbatim>\<open>injected_results.append(ad_copy)\<close>. Lemma \<open>slot_plan_text\<close> shows that erasing the
  tags gives exactly the list the tool returns.
\<close>

datatype slot = Organic string | Sponsored string

fun slot_text :: "slot \<Rightarrow> string" where
  "slot_text (Organic s) = s"
| "slot_text (Sponsored s) = s"

fun is_sponsored :: "slot \<Rightarrow> bool" where
  "is_sponsored (Organic s) = False"
| "is_sponsored (Sponsored s) = True"

definition tagged_step ::
  "(promotion \<Rightarrow> string list \<Rightarrow> nat \<Rightarrow> string) \<Rightarrow> string list \<Rightarrow> nat list \<Rightarrow> promotion list
     \<Rightarrow> nat \<times> string \<Rightarrow> slot list \<times> nat \<Rightarrow> slot list \<times> nat" where
  "tagged_step gen_ad search_results insertion_positions selected_promotions =
     (\<lambda>(i, result) (injected_results, promotion_index).
        let injected_results = injected_results @ [Organic result] in
        if i + 1 \<in> set insertion_positions \<and> promotion_index < length selected_promotions then
          let promotion = selected_promotions ! promotion_index;
              ad_copy = gen_ad promotion search_results i
          in (injected_results @ [Sponsored ad_copy], promotion_index + 1)
        else (injected_results, promotion_index))"

definition tagged_strategy ::
  "(promotion \<Rightarrow> string list \<Rightarrow> nat \<Rightarrow> string) \<Rightarrow> string list \<Rightarrow> promotion list \<Rightarrow> slot list" where
  "tagged_strategy gen_ad search_results promotions =
     (if length search_results < 2 then map Organic search_results
      else
        let max_ads = min (length promotions) (min 3 (length search_results div 3)) in
        if max_ads = 0 then map Organic search_results
        else
          let selected_promotions = take max_ads promotions;
              insertion_positions =
                calculate_insertion_positions (length search_results) max_ads
          in fst (fold (tagged_step gen_ad search_results insertion_positions selected_promotions)
                       (enumerate 0 search_results) ([], 0)))"

definition slot_plan ::
  "(promotion \<Rightarrow> string list \<Rightarrow> nat \<Rightarrow> string) \<Rightarrow> string list \<Rightarrow> promotion list \<Rightarrow> slot list" where
  "slot_plan gen_ad search_results promotions =
     (if search_results = [] then []
      else if promotions = [] then map Organic search_results
      else tagged_strategy gen_ad search_results promotions)"

text \<open>The number of sponsored items in a plan.\<close>

definition sponsored_count :: "slot list \<Rightarrow> nat" where
  "sponsored_count plan = length (filter is_sponsored plan)"

section \<open>Embeddings and the promotion index: \<^verbatim>\<open>models/embedder.py\<close>\<close>

subsection \<open>What the code takes from Python and NumPy\<close>

text \<open>
  An embedding is a one-dimensional array of floats, a matrix of embeddings a list of
  rows.
\<close>

type_synonym vec = "real list"

text \<open>
  The built-in \<^verbatim>\<open>hash\<close> and NumPy's global random generator are parameters of the
  model, collected in one record. \<open>py_hash\<close> is \<^verbatim>\<open>hash\<close> on strings (one fixed function
  during a run of the interpreter); \<open>hash_features\<close> is
  \<^verbatim>\<open>hash(str(features.tobytes()))\<close>; \<open>random_seed n\<close> is the generator state that
  \<^verbatim>\<open>np.random.seed(n)\<close> installs; \<open>gauss\<close> draws one standard normal sample from a
  generator state and returns the state that follows.
\<close>

record 'g runtime =
  py_hash :: "string \<Rightarrow> int"
  hash_features :: "real list list \<Rightarrow> int"
  random_seed :: "nat \<Rightarrow> 'g"
  gauss :: "'g \<Rightarrow> real \<times> 'g"

text \<open>
  \<^verbatim>\<open>np.random.normal(loc, scale, size)\<close>: \<open>size\<close> samples drawn one after the other,
  each the standard normal sample scaled and shifted.
\<close>

fun np_random_normal :: "('g \<Rightarrow> real \<times> 'g) \<Rightarrow> real \<Rightarrow> real \<Rightarrow> nat \<Rightarrow> 'g \<Rightarrow> real list \<times> 'g" where
  "np_random_normal draw loc scale 0 g = ([], g)"
| "np_random_normal draw loc scale (Suc n) g =
     (let (z, g) = draw g;
          (zs, g) = np_random_normal draw loc scale n g
      in ((loc + scale * z) # zs, g))"

text \<open>\<^verbatim>\<open>np.linalg.norm\<close> of a one-dimensional array: the Euclidean norm.\<close>

definition np_linalg_norm :: "vec \<Rightarrow> real" where
  "np_linalg_norm v = sqrt (sum_list (map (\<lambda>x. x * x) v))"

text \<open>\<^verbatim>\<open>np.dot\<close> of two one-dimensional arrays; it raises when their lengths differ.\<close>

definition np_dot :: "vec \<Rightarrow> vec \<Rightarrow> error + real" where
  "np_dot a b =
     (if length a \<noteq> length b then Inl ValueError
      else Inr (sum_list (map (\<lambda>(x, y). x * y) (zip a b))))"

text \<open>\<^verbatim>\<open>np.clip\<close> on one number.\<close>

definition np_clip :: "real \<Rightarrow> real \<Rightarrow> real \<Rightarrow> real" where
  "np_clip x lo hi = min (max x lo) hi"

text \<open>
  \<^verbatim>\<open>str.lower\<close> on the ASCII letters; a string is a list of bytes here, and bytes
  outside \<open>A\<close>..\<open>Z\<close> are left as they are.
\<close>

definition char_lower :: "char \<Rightarrow> char" where
  "char_lower c =
     (let n = (of_char c :: nat) in if 65 \<le> n \<and> n \<le> 90 then char_of (n + 32) else c)"

definition str_lower :: "string \<Rightarrow> string" where
  "str_lower s = map char_lower s"

text \<open>
  \<^verbatim>\<open>xs[:k]\<close> for a Python integer \<open>k\<close>: the first \<open>k\<close> items, or for a negative \<open>k\<close>
  all but the last \<open>-k\<close>.
\<close>

definition py_slice_to :: "'a list \<Rightarrow> int \<Rightarrow> 'a list" where
  "py_slice_to xs k =
     (if 0 \<le> k then take (nat k) xs else take (length xs - nat (- k)) xs)"

text \<open>
  \<^verbatim>\<open>xs.sort(key=key, reverse=True)\<close>. Python's sort is stable, and with
  \<^verbatim>\<open>reverse=True\<close> it reverses the list, sorts it stably in ascending order and
  reverses it again, so that equal keys keep their original order. \<open>sort_key\<close> is a
  stable ascending sort.
\<close>

definition py_sort_reverse :: "('a \<Rightarrow> 'k::linorder) \<Rightarrow> 'a list \<Rightarrow> 'a list" where
  "py_sort_reverse key xs = rev (sort_key key (rev xs))"

subsection \<open>\<^verbatim>\<open>EmbeddingModel\<close>\<close>

text \<open>
  \<open>st_model\<close> is \<^verbatim>\<open>self.model\<close>: \<open>None\<close> when no sentence-transformer model is loaded,
  otherwise its \<^verbatim>\<open>encode\<close>, which returns \<open>None\<close> where the library raises.
\<close>

record embedding_model =
  st_model :: "(string list \<Rightarrow> vec list option) option"

text \<open>
  \<^verbatim>\<open>_mock_embeddings\<close>. The loop over \<^verbatim>\<open>texts\<close> is the recursion; the global generator
  state is passed through. Dividing by a zero norm gives \<^verbatim>\<open>nan\<close> entries in NumPy and
  \<open>0\<close> in HOL: statements about the normalised vector below assume a non-zero norm.
\<close>

fun mock_embeddings :: "'g runtime \<Rightarrow> string list \<Rightarrow> 'g \<Rightarrow> vec list \<times> 'g" where
  "mock_embeddings rt [] g = ([], g)"
| "mock_embeddings rt (text # texts) g =
     (let text_hash = nat (py_hash rt (str_lower text) mod 1000000);
          g = random_seed rt text_hash;
          (embedding, g) = np_random_normal (gauss rt) 0 1 384 g;
          embedding = map (\<lambda>x. x / np_linalg_norm embedding) embedding;
          (embeddings, g) = mock_embeddings rt texts g
      in (embedding # embeddings, g))"

text \<open>
  The sample that \<^verbatim>\<open>_mock_embeddings\<close> draws for one text, before it is normalised.
\<close>

definition mock_sample :: "'g runtime \<Rightarrow> string \<Rightarrow> vec" where
  "mock_sample rt text =
     fst (np_random_normal (gauss rt) 0 1 384
            (random_seed rt (nat (py_hash rt (str_lower text) mod 1000000))))"

definition encode :: "'g runtime \<Rightarrow> embedding_model \<Rightarrow> string list \<Rightarrow> 'g \<Rightarrow> vec list \<times> 'g" where
  "encode rt em texts g =
     (case st_model em of
        Some model_encode \<Rightarrow>
          (case model_encode texts of
             Some embeddings \<Rightarrow> (embeddings, g)
           | None \<Rightarrow> mock_embeddings rt texts g)
      | None \<Rightarrow> mock_embeddings rt texts g)"

text \<open>
  \<^verbatim>\<open>EmbeddingModel.similarity\<close>. Where the product of the norms is zero NumPy returns
  \<^verbatim>\<open>nan\<close> and goes on; the model has no such value and stops with \<open>NotANumber\<close>.
\<close>

definition similarity :: "vec \<Rightarrow> vec \<Rightarrow> error + real" where
  "similarity embedding1 embedding2 =
     (case np_dot embedding1 embedding2 of
        Inl e \<Rightarrow> Inl e
      | Inr d \<Rightarrow>
          (if np_linalg_norm embedding1 * np_linalg_norm embedding2 = 0 then Inl NotANumber
           else Inr (d / (np_linalg_norm embedding1 * np_linalg_norm embedding2))))"

subsection \<open>\<^verbatim>\<open>PromotionIndex\<close>\<close>

text \<open>
  The index holds references to dictionaries, and \<^verbatim>\<open>search\<close> copies and then updates
  dictionaries, so the dictionaries live in an explicit store: \<open>heap\<close> is the list of all
  dictionary objects, an address is a position in it, and a new object is appended.
  \<open>idx_promotions\<close>, \<open>idx_embeddings\<close>, \<open>idx_built\<close> and \<open>idx_embedder\<close> are the
  attributes \<^verbatim>\<open>promotions\<close>, \<^verbatim>\<open>embeddings\<close>, \<^verbatim>\<open>index_built\<close> and \<^verbatim>\<open>embedder\<close> of the
  index; \<open>cache_file\<close> is the content of the pickle file \<^verbatim>\<open>promotion_embeddings.pkl\<close>
  (\<open>None\<close> when the file does not exist); \<open>rng\<close> is NumPy's global generator state.
  Reading and writing the file is taken to succeed.
\<close>

type_synonym addr = nat

record 'g index_state =
  idx_embedder :: embedding_model
  idx_promotions :: "addr list"
  idx_embeddings :: "vec list option"
  idx_built :: bool
  heap :: "promotion list"
  cache_file :: "vec list option"
  rng :: 'g

text \<open>\<^verbatim>\<open>add_promotions\<close>: the argument is a list of references to dictionaries.\<close>

definition add_promotions :: "addr list \<Rightarrow> 'g index_state \<Rightarrow> 'g index_state" where
  "add_promotions new_promotions s =
     s\<lparr>idx_promotions := idx_promotions s @ new_promotions, idx_built := False\<rparr>"

definition build_index :: "'g runtime \<Rightarrow> bool \<Rightarrow> 'g index_state \<Rightarrow> 'g index_state" where
  "build_index rt force_rebuild s =
     (if idx_built s \<and> \<not> force_rebuild then s
      else if idx_promotions s = [] then s
      else
        let cached_embeddings = cache_file s in
        if cached_embeddings \<noteq> None
           \<and> length (the cached_embeddings) = length (idx_promotions s)
           \<and> \<not> force_rebuild
        then s\<lparr>idx_embeddings := cached_embeddings, idx_built := True\<rparr>
        else
          let texts = map (\<lambda>a. dict_get (title (heap s ! a)) [] @ '' '' @
                                dict_get (description (heap s ! a)) [])
                          (idx_promotions s);
              (embeddings, g) = encode rt (idx_embedder s) texts (rng s)
          in s\<lparr>idx_embeddings := Some embeddings, idx_built := True,
                cache_file := Some embeddings, rng := g\<rparr>)"

text \<open>\<^verbatim>\<open>_apply_user_profile_boost\<close>.\<close>

definition apply_user_profile_boost :: "real \<Rightarrow> promotion \<Rightarrow> user_profile \<Rightarrow> real" where
  "apply_user_profile_boost base_score promotion profile =
     (let boosted_score = base_score;
          user_interests = set (dict_get (interests profile) []);
          promo_categories = set (dict_get (categories promotion) []);
          interest_overlap = card (user_interests \<inter> promo_categories);
          boosted_score =
            (if interest_overlap > 0 then boosted_score + 0.1 * real interest_overlap
             else boosted_score);
          user_budget = dict_get (budget_level profile) ''medium'';
          promo_price_tier = dict_get (price_tier promotion) ''medium'';
          boosted_score =
            (if user_budget = promo_price_tier then boosted_score + 0.05
             else if (user_budget = ''high'' \<and> promo_price_tier = ''medium'')
                     \<or> (user_budget = ''medium'' \<and> promo_price_tier = ''low'')
                  then boosted_score + 0.02
             else boosted_score)
      in min boosted_score 1.0)"

text \<open>
  The truth value of \<^verbatim>\<open>user_profile\<close> in \<^verbatim>\<open>if user_profile:\<close>. \<^verbatim>\<open>None\<close> and the empty
  dictionary are false.
\<close>

definition profile_truthy :: "user_profile option \<Rightarrow> bool" where
  "profile_truthy user_profile =
     (case user_profile of
        None \<Rightarrow> False
      | Some p \<Rightarrow> user_type p \<noteq> None \<or> interests p \<noteq> None \<or> budget_level p \<noteq> None)"

text \<open>
  The loop \<^verbatim>\<open>for i, promo_embedding in enumerate(self.embeddings)\<close> of \<^verbatim>\<open>search\<close>; the
  result is the list \<^verbatim>\<open>similarities\<close>.
\<close>

fun similarities_loop ::
  "vec \<Rightarrow> user_profile option \<Rightarrow> addr list \<Rightarrow> promotion list \<Rightarrow> (nat \<times> vec) list
     \<Rightarrow> error + (real \<times> nat) list" where
  "similarities_loop query_embedding user_profile proms hp [] = Inr []"
| "similarities_loop query_embedding user_profile proms hp ((i, promo_embedding) # rest) =
     (case similarity query_embedding promo_embedding of
        Inl e \<Rightarrow> Inl e
      | Inr sim \<Rightarrow>
          (if profile_truthy user_profile \<and> i \<ge> length proms then Inl IndexError
           else
             let sim = (if profile_truthy user_profile
                        then apply_user_profile_boost sim (hp ! (proms ! i)) (the user_profile)
                        else sim)
             in (case similarities_loop query_embedding user_profile proms hp rest of
                   Inl e \<Rightarrow> Inl e
                 | Inr similarities \<Rightarrow> Inr ((sim, i) # similarities))))"

text \<open>
  The loop \<^verbatim>\<open>for similarity, idx in similarities[:top_k]\<close>: \<^verbatim>\<open>.copy()\<close> allocates a new
  dictionary with the fields of the stored one, the assignment to \<^verbatim>\<open>promo['score']\<close>
  updates the new object at its address.
\<close>

fun results_loop ::
  "addr list \<Rightarrow> (real \<times> nat) list \<Rightarrow> promotion list \<Rightarrow> error + (addr list \<times> promotion list)" where
  "results_loop proms [] hp = Inr ([], hp)"
| "results_loop proms ((sim, idx) # rest) hp =
     (if idx \<ge> length proms then Inl IndexError
      else
        let promo = length hp;
            hp = hp @ [hp ! (proms ! idx)];
            hp = hp[promo := (hp ! promo)\<lparr>score := Some sim\<rparr>]
        in (case results_loop proms rest hp of
              Inl e \<Rightarrow> Inl e
            | Inr (results, hp) \<Rightarrow> Inr (promo # results, hp)))"

text \<open>
  \<^verbatim>\<open>PromotionIndex.search\<close>. The tuples \<^verbatim>\<open>(similarity, i)\<close> are sorted by Python's tuple
  order, which is the lexicographic order on pairs.
\<close>

definition search ::
  "'g runtime \<Rightarrow> string \<Rightarrow> int \<Rightarrow> user_profile option \<Rightarrow> 'g index_state
     \<Rightarrow> error + (addr list \<times> 'g index_state)" where
  "search rt query top_k user_profile s =
     (let s = (if \<not> idx_built s then build_index rt False s else s) in
      if idx_promotions s = [] \<or> idx_embeddings s = None then Inr ([], s)
      else
        let (encoded, g) = encode rt (idx_embedder s) [query] (rng s);
            s = s\<lparr>rng := g\<rparr>
        in (case encoded of
              [] \<Rightarrow> Inl IndexError
            | query_embedding # _ \<Rightarrow>
                (case similarities_loop query_embedding user_profile (idx_promotions s) (heap s)
                        (enumerate 0 (the (idx_embeddings s))) of
                   Inl e \<Rightarrow> Inl e
                 | Inr similarities \<Rightarrow>
                     let similarities = py_sort_reverse (\<lambda>t. t) similarities in
                     (case results_loop (idx_promotions s) (py_slice_to similarities top_k)
                             (heap s) of
                        Inl e \<Rightarrow> Inl e
                      | Inr (results, hp) \<Rightarrow> Inr (results, s\<lparr>heap := hp\<rparr>)))))"

subsection \<open>Well-formed index states\<close>

text \<open>
  Every reference of the index points to a dictionary of the store. In Python a
  reference cannot dangle; in the model this is a condition on the state.
\<close>

definition heap_ok :: "'g index_state \<Rightarrow> bool" where
  "heap_ok s = list_all (\<lambda>a. a < length (heap s)) (idx_promotions s)"

text \<open>
  The states in which \<^verbatim>\<open>search\<close> raises nothing. All embedding rows have one dimension
  \<open>d\<close> and a non-zero norm: the rows that the embedder returns (one per text), the rows
  in the cache file, and the rows of a built index, of which there is one per promotion.
\<close>

definition rows_ok :: "nat \<Rightarrow> vec list \<Rightarrow> bool" where
  "rows_ok d rows = list_all (\<lambda>row. length row = d \<and> np_linalg_norm row \<noteq> 0) rows"

definition encoder_ok :: "'g runtime \<Rightarrow> embedding_model \<Rightarrow> nat \<Rightarrow> bool" where
  "encoder_ok rt em d =
     (\<forall>texts g. length (fst (encode rt em texts g)) = length texts
                 \<and> rows_ok d (fst (encode rt em texts g)))"

definition index_consistent :: "'g runtime \<Rightarrow> nat \<Rightarrow> 'g index_state \<Rightarrow> bool" where
  "index_consistent rt d s =
     (heap_ok s \<and> encoder_ok rt (idx_embedder s) d
      \<and> (case cache_file s of None \<Rightarrow> True | Some c \<Rightarrow> rows_ok d c)
      \<and> (idx_built s \<longrightarrow>
            (case idx_embeddings s of
               None \<Rightarrow> False
             | Some e \<Rightarrow> length e = length (idx_promotions s) \<and> rows_ok d e)))"

section \<open>Ranking: \<^verbatim>\<open>models/ranker.py\<close> and \<^verbatim>\<open>mcp_server/tools/rank_promotions.py\<close>\<close>

text \<open>
  \<open>model_type\<close> and \<open>booster\<close> are the attributes \<^verbatim>\<open>model_type\<close> and \<^verbatim>\<open>model\<close> of
  \<^verbatim>\<open>PromotionRanker\<close>. A LightGBM booster predicts each row of the feature matrix on its
  own and returns one prediction per row; \<open>booster\<close> is that prediction for one row,
  \<open>None\<close> where the library raises.
\<close>

record ranker =
  model_type :: string
  booster :: "(real list \<Rightarrow> real option) option"

text \<open>An entry \<^verbatim>\<open>{"id": ..., "score": ...}\<close> of the ranking.\<close>

record ranked_promotion =
  rp_id :: string
  rp_score :: real

text \<open>The decimal digits of a natural number, as \<^verbatim>\<open>f"{i}"\<close> prints it.\<close>

definition digit_char :: "nat \<Rightarrow> char" where
  "digit_char d = char_of (48 + d)"

function str_of_nat :: "nat \<Rightarrow> string" where
  "str_of_nat n = (if n < 10 then [digit_char n] else str_of_nat (n div 10) @ [digit_char (n mod 10)])"
  by pat_completeness auto
termination
  by (relation "measure (\<lambda>n. n)") auto

declare str_of_nat.simps [simp del]

text \<open>\<^verbatim>\<open>_calculate_budget_compatibility\<close>: a dictionary literal read with a default.\<close>

definition calculate_budget_compatibility :: "string \<Rightarrow> string \<Rightarrow> real" where
  "calculate_budget_compatibility user_budget promo_price_tier =
     (let compatibility_matrix = map_of
            [((''low'', ''low''), 1.0),
             ((''low'', ''medium''), 0.3),
             ((''low'', ''high''), 0.1),
             ((''medium'', ''low''), 0.8),
             ((''medium'', ''medium''), 1.0),
             ((''medium'', ''high''), 0.6),
             ((''high'', ''low''), 0.9),
             ((''high'', ''medium''), 0.9),
             ((''high'', ''high''), 1.0)]
      in dict_get (compatibility_matrix (user_budget, promo_price_tier)) 0.5)"

text \<open>\<^verbatim>\<open>_extract_features\<close>: the six features, in the order they are appended.\<close>

definition extract_features :: "promotion \<Rightarrow> user_profile \<Rightarrow> real list" where
  "extract_features promotion profile =
     (let base_ctr' = dict_get (base_ctr promotion) 0.1;
          user_interests = set (dict_get (interests profile) []);
          promo_categories = set (dict_get (categories promotion) []);
          interest_match =
            real (card (user_interests \<inter> promo_categories)) / real (max (card user_interests) 1);
          user_budget = dict_get (budget_level profile) ''medium'';
          promo_price_tier = dict_get (price_tier promotion) ''medium'';
          budget_compat = calculate_budget_compatibility user_budget promo_price_tier;
          category_diversity = real (length (dict_get (categories promotion) [])) / 10.0;
          price_tier_map = map_of [(''low'', 0.0), (''medium'', 0.5), (''high'', 1.0)];
          price_tier_numeric = dict_get (price_tier_map promo_price_tier) 0.5;
          user_type_map = map_of [(''casual'', 0.0), (''professional'', 0.5), (''enterprise'', 1.0)];
          user_type_numeric = dict_get (user_type_map (dict_get (user_type profile) ''casual'')) 0.0
      in [base_ctr', interest_match, budget_compat, category_diversity,
          price_tier_numeric, user_type_numeric])"

text \<open>
  \<^verbatim>\<open>np.dot(features, weights)\<close> for a matrix and a vector: one product per row; it
  raises when a row and the vector differ in length.
\<close>

fun np_dot_rows :: "real list list \<Rightarrow> vec \<Rightarrow> error + real list" where
  "np_dot_rows [] weights = Inr []"
| "np_dot_rows (row # rows) weights =
     (case np_dot row weights of
        Inl e \<Rightarrow> Inl e
      | Inr d \<Rightarrow> (case np_dot_rows rows weights of Inl e \<Rightarrow> Inl e | Inr ds \<Rightarrow> Inr (d # ds)))"

text \<open>\<^verbatim>\<open>_mock_predict\<close>, the deterministic fallback scorer.\<close>

definition mock_predict :: "'g runtime \<Rightarrow> real list list \<Rightarrow> 'g \<Rightarrow> error + (real list \<times> 'g)" where
  "mock_predict rt features g =
     (let weights = [0.4, 0.3, 0.2, 0.05, 0.03, 0.02] in
      case np_dot_rows features weights of
        Inl e \<Rightarrow> Inl e
      | Inr scores \<Rightarrow>
          let g = random_seed rt (nat (hash_features rt features mod 2 ^ 32));
              (noise, g) = np_random_normal (gauss rt) 0 0.02 (length scores) g;
              scores = map (\<lambda>(x, y). x + y) (zip scores noise);
              scores = map (\<lambda>x. np_clip x 0.01 0.5) scores
          in Inr (scores, g))"

text \<open>\<^verbatim>\<open>self.model.predict(features_array)\<close>: it raises when a row cannot be predicted.\<close>

fun booster_predict :: "(real list \<Rightarrow> real option) \<Rightarrow> real list list \<Rightarrow> error + real list" where
  "booster_predict predict_row [] = Inr []"
| "booster_predict predict_row (row # rows) =
     (case predict_row row of
        None \<Rightarrow> Inl ModelError
      | Some y \<Rightarrow>
          (case booster_predict predict_row rows of
             Inl e \<Rightarrow> Inl e
           | Inr ys \<Rightarrow> Inr (y # ys)))"

text \<open>
  The entry built from the \<open>i\<close>-th candidate: \<^verbatim>\<open>candidate.get("id", f"promo_{i}")\<close> with a
  score.
\<close>

definition ranked_entry :: "nat \<Rightarrow> promotion \<Rightarrow> real \<Rightarrow> ranked_promotion" where
  "ranked_entry i candidate sc =
     \<lparr>rp_id = dict_get (promo_id candidate) (''promo_'' @ str_of_nat i), rp_score = sc\<rparr>"

text \<open>\<^verbatim>\<open>PromotionRanker.rank_promotions\<close>.\<close>

definition rank_promotions ::
  "'g runtime \<Rightarrow> ranker \<Rightarrow> promotion list \<Rightarrow> user_profile \<Rightarrow> 'g
     \<Rightarrow> error + (ranked_promotion list \<times> 'g)" where
  "rank_promotions rt r candidates profile g =
     (if candidates = [] then Inr ([], g)
      else
        let features = map (\<lambda>candidate. extract_features candidate profile) candidates;
            predicted =
              (if model_type r = ''lightgbm'' \<and> booster r \<noteq> None
               then (case booster_predict (the (booster r)) features of
                       Inl e \<Rightarrow> Inl e
                     | Inr scores \<Rightarrow> Inr (scores, g))
               else mock_predict rt features g)
        in (case predicted of
              Inl e \<Rightarrow> Inl e
            | Inr (scores, g) \<Rightarrow>
                let ranked_promotions =
                      map (\<lambda>(i, (candidate, sc)). ranked_entry i candidate sc)
                          (enumerate 0 (zip candidates scores));
                    ranked_promotions = py_sort_reverse rp_score ranked_promotions
                in Inr (ranked_promotions, g)))"

text \<open>
  \<^verbatim>\<open>rank_promotions_tool\<close>, the value under the key \<^verbatim>\<open>ranked_promotions\<close>. \<open>r\<close> is the
  global ranker that \<^verbatim>\<open>get_ranker()\<close> returns. An exception inside the \<^verbatim>\<open>try\<close> block
  leads to the fallback list with the score \<open>0.1\<close>.
\<close>

definition rank_promotions_tool ::
  "'g runtime \<Rightarrow> ranker \<Rightarrow> promotion list \<Rightarrow> user_profile \<Rightarrow> 'g \<Rightarrow> ranked_promotion list \<times> 'g" where
  "rank_promotions_tool rt r candidates profile g =
     (if candidates = [] then ([], g)
      else
        (case rank_promotions rt r candidates profile g of
           Inr (ranked_promotions, g) \<Rightarrow> (ranked_promotions, g)
         | Inl e \<Rightarrow>
             (map (\<lambda>(i, candidate). ranked_entry i candidate 0.1) (enumerate 0 candidates), g)))"

text \<open>
  The identifiers of the candidates in input order, each as the ranking names it: the
  key \<^verbatim>\<open>id\<close>, or \<^verbatim>\<open>promo_\<close> followed by the position where the key is absent.
\<close>

definition candidate_ids :: "promotion list \<Rightarrow> string list" where
  "candidate_ids candidates =
     map (\<lambda>(i, candidate). dict_get (promo_id candidate) (''promo_'' @ str_of_nat i))
         (enumerate 0 candidates)"

section \<open>Sample inputs\<close>

text \<open>
  Concrete inputs at which the theorems below are instantiated: two of the promotions of
  \<^verbatim>\<open>_load_mock_promotions\<close>, the result list of \<^verbatim>\<open>test_optimize_ad_slots_basic\<close>, and an
  ad text that shows the title only.
\<close>

definition aws_ec2_1 :: promotion where
  "aws_ec2_1 =
     \<lparr>promo_id = Some ''aws-ec2-1'', title = Some ''AWS EC2 Instance Discount'',
      description = Some ''Save 30% on AWS EC2 instances for new customers.'',
      link = Some ''https://aws.amazon.com/ec2/pricing/'',
      categories = Some [''cloud'', ''computing'', ''aws'', ''hosting''],
      price_tier = Some ''medium'', base_ctr = Some (12 / 100), score = None\<rparr>"

definition laptop_deal_1 :: promotion where
  "laptop_deal_1 =
     \<lparr>promo_id = Some ''laptop-deal-1'', title = Some ''Gaming Laptop Special Offer'',
      description = Some ''High-performance gaming laptops with RTX graphics cards.'',
      link = Some ''https://example.com/gaming-laptops'',
      categories = Some [''electronics'', ''gaming'', ''laptop'', ''computer''],
      price_tier = Some ''high'', base_ctr = Some (8 / 100), score = None\<rparr>"

definition test_search_results :: "string list" where
  "test_search_results =
     [''Best cloud hosting providers 2024'', ''How to choose web hosting'',
      ''Cloud computing guide'', ''Server management tips'',
      ''Website performance optimization'']"

definition demo_ad :: "promotion \<Rightarrow> string list \<Rightarrow> nat \<Rightarrow> string" where
  "demo_ad promotion search_results current_position =
     ''[SPONSORED] '' @ dict_get (title promotion) ''Special Offer''"

text \<open>
  The profiles of \<^verbatim>\<open>test_rank_promotions_basic\<close> and \<^verbatim>\<open>test_full_pipeline\<close>, and one
  choice of the Python and NumPy parameters: a generator state is a counter, and every
  standard normal draw returns \<open>1\<close>.
\<close>

definition test_profile :: user_profile where
  "test_profile = \<lparr>user_type = Some ''professional'', interests = Some [''cloud'', ''hosting''],
                    budget_level = Some ''medium''\<rparr>"

definition business_profile :: user_profile where
  "business_profile = \<lparr>user_type = Some ''business'',
     interests = Some [''hosting'', ''cloud'', ''web''], budget_level = Some ''medium''\<rparr>"

definition sample_runtime :: "nat runtime" where
  "sample_runtime = \<lparr>py_hash = (\<lambda>s. int (length s)), hash_features = (\<lambda>f. int (length f)),
      random_seed = (\<lambda>n. n), gauss = (\<lambda>g. (1, Suc g))\<rparr>"

text \<open>An embedding model without a loaded sentence-transformer model.\<close>

definition mock_model :: embedding_model where
  "mock_model = \<lparr>st_model = None\<rparr>"

text \<open>The ranker of the default configuration: no learned model.\<close>

definition mock_ranker :: ranker where
  "mock_ranker = \<lparr>model_type = ''mock'', booster = None\<rparr>"

text \<open>
  A third promotion of \<^verbatim>\<open>_load_mock_promotions\<close>, an embedding model with two unit
  vectors (one for the texts that begin with \<open>A\<close>, one for all others), an index over
  the three promotions that is not built yet, and the same index once built.
\<close>

definition cloud_storage_1 :: promotion where
  "cloud_storage_1 =
     \<lparr>promo_id = Some ''cloud-storage-1'', title = Some ''Cloud Storage Premium Plan'',
      description = Some ''Unlimited cloud storage with advanced security features.'',
      link = Some ''https://example.com/cloud-storage'',
      categories = Some [''cloud'', ''storage'', ''backup'', ''security''],
      price_tier = Some ''low'', base_ctr = Some (10 / 100), score = None\<rparr>"

definition initial_model :: embedding_model where
  "initial_model =
     \<lparr>st_model = Some (\<lambda>texts. Some (map (\<lambda>t. if take 1 t = ''A'' then [1, 0] else [3 / 5, 4 / 5])
                                         texts))\<rparr>"

definition sample_index :: "nat index_state" where
  "sample_index =
     \<lparr>idx_embedder = initial_model, idx_promotions = [0, 1, 2], idx_embeddings = None,
      idx_built = False, heap = [aws_ec2_1, laptop_deal_1, cloud_storage_1],
      cache_file = None, rng = 0\<rparr>"

definition sample_embeddings :: "vec list" where
  "sample_embeddings = [[1, 0], [3 / 5, 4 / 5], [3 / 5, 4 / 5]]"

definition built_index :: "nat index_state" where
  "built_index =
     sample_index\<lparr>idx_embeddings := Some sample_embeddings, idx_built := True,
                  cache_file := Some sample_embeddings\<rparr>"

section \<open>Placement: proofs\<close>

lemma tagged_fold_text:
  "map slot_text (fst (fold (tagged_step g rs ps sel) xs (acc, k))) =
     fst (fold (insertion_step g rs ps sel) xs (map slot_text acc, k))
   \<and> snd (fold (tagged_step g rs ps sel) xs (acc, k)) =
     snd (fold (insertion_step g rs ps sel) xs (map slot_text acc, k))"
proof (induction xs arbitrary: acc k)
  case Nil
  show ?case by simp
next
  case (Cons x xs)
  obtain i r where x: "x = (i, r)" by (cases x)
  show ?case
  proof (cases "i + 1 \<in> set ps \<and> k < length sel")
    case True
    then show ?thesis
      using Cons.IH [of "acc @ [Organic r, Sponsored (g (sel ! k) rs i)]" "k + 1"]
      by (simp add: x tagged_step_def insertion_step_def Let_def)
  next
    case False
    then show ?thesis
      using Cons.IH [of "acc @ [Organic r]" k]
      by (auto simp add: x tagged_step_def insertion_step_def Let_def)
  qed
qed

lemma map_text_Organic: "map slot_text (map Organic rs) = rs"
  by (induction rs) auto

lemma tagged_strategy_text:
  "map slot_text (tagged_strategy g rs ps) = optimize_insertion_strategy g rs ps"
proof -
  have fold_eq:
    "map slot_text (fst (fold (tagged_step g rs P S) (enumerate 0 rs) ([], 0))) =
       fst (fold (insertion_step g rs P S) (enumerate 0 rs) ([], 0))" for P S
    using tagged_fold_text [of g rs P S "enumerate 0 rs" "[]" 0] by simp
  show ?thesis
    unfolding tagged_strategy_def optimize_insertion_strategy_def Let_def
    by (simp only: fold_eq map_text_Organic if_distrib [of "map slot_text"])
qed

lemma slot_plan_text:
  "map slot_text (slot_plan g rs ps) = optimize_ad_slots_tool g rs ps"
  unfolding slot_plan_def optimize_ad_slots_tool_def
  by (simp only: tagged_strategy_text map_text_Organic if_distrib [of "map slot_text"] list.map)

lemma tagged_fold_shape:
  "fold (tagged_step g rs P S) (enumerate n xs) (acc, k) = (res, k') \<Longrightarrow>
     k \<le> k' \<and> k' \<le> max k (length S)
     \<and> sponsored_count res = sponsored_count acc + (k' - k)
     \<and> length res = length acc + length xs + (k' - k)
     \<and> (\<exists>tl. res = acc @ tl \<and> (xs \<noteq> [] \<longrightarrow> hd tl = Organic (hd xs)))"
proof (induction xs arbitrary: n acc k)
  case Nil
  then show ?case by (simp add: sponsored_count_def)
next
  case (Cons x xs)
  show ?case
  proof (cases "n + 1 \<in> set P \<and> k < length S")
    case True
    with Cons.prems have
      "fold (tagged_step g rs P S) (enumerate (Suc n) xs)
         (acc @ [Organic x, Sponsored (g (S ! k) rs n)], k + 1) = (res, k')"
      by (simp add: tagged_step_def Let_def)
    from Cons.IH [OF this] True show ?thesis
      by (auto simp add: sponsored_count_def)
  next
    case False
    with Cons.prems have
      "fold (tagged_step g rs P S) (enumerate (Suc n) xs) (acc @ [Organic x], k) = (res, k')"
      by (auto simp add: tagged_step_def Let_def)
    from Cons.IH [OF this] False show ?thesis
      by (auto simp add: sponsored_count_def)
  qed
qed

lemma sponsored_count_Organic: "sponsored_count (map Organic rs) = 0"
  by (induction rs) (auto simp add: sponsored_count_def)

lemma tagged_strategy_shape:
  assumes "rs \<noteq> []"
  shows "hd (tagged_strategy g rs ps) = Organic (hd rs)
         \<and> sponsored_count (tagged_strategy g rs ps)
             \<le> min (length ps) (min 3 (length rs div 3))
         \<and> length (tagged_strategy g rs ps) = length rs + sponsored_count (tagged_strategy g rs ps)"
proof -
  define m where "m = min (length ps) (min 3 (length rs div 3))"
  define P where "P = calculate_insertion_positions (length rs) m"
  have unf: "tagged_strategy g rs ps =
      (if length rs < 2 then map Organic rs
       else if m = 0 then map Organic rs
       else fst (fold (tagged_step g rs P (take m ps)) (enumerate 0 rs) ([], 0)))"
    unfolding tagged_strategy_def Let_def m_def P_def by (rule refl)
  show ?thesis
  proof (cases "length rs < 2 \<or> m = 0")
    case True
    then have "tagged_strategy g rs ps = map Organic rs"
      by (auto simp add: unf)
    with assms show ?thesis
      by (simp add: sponsored_count_Organic hd_map)
  next
    case False
    obtain res k' where f:
      "fold (tagged_step g rs P (take m ps)) (enumerate 0 rs) ([], 0) = (res, k')"
      by (cases "fold (tagged_step g rs P (take m ps)) (enumerate 0 rs) ([], 0)")
    from False have ts: "tagged_strategy g rs ps = res"
      by (simp add: unf f)
    have "length (take m ps) = m" by (simp add: m_def)
    with tagged_fold_shape [OF f] assms show ?thesis
      by (auto simp add: ts sponsored_count_def m_def [symmetric])
  qed
qed

lemma list5: "length rs = 5 \<Longrightarrow> \<exists>a b c d e. rs = [a, b, c, d, e]"
  by (auto simp add: length_Suc_conv eval_nat_numeral)

lemma list2: "length ps = 2 \<Longrightarrow> \<exists>p q. ps = [p, q]"
  by (auto simp add: length_Suc_conv eval_nat_numeral)

text \<open>
  Claim C1, as the code has it. With five organic results and two promotions the number
  of ads is \<open>min 2 (min 3 (5 div 3)) = 1\<close>: the placement inserts exactly one sponsored
  slot, built from the first promotion, immediately after the second organic result, and
  the output has six items.
\<close>

theorem five_results_two_promotions:
  assumes "length rs = 5" and "length ps = 2"
  shows "slot_plan g rs ps =
           [Organic (rs ! 0), Organic (rs ! 1), Sponsored (g (ps ! 0) rs 1),
            Organic (rs ! 2), Organic (rs ! 3), Organic (rs ! 4)]
         \<and> optimize_ad_slots_tool g rs ps =
           [rs ! 0, rs ! 1, g (ps ! 0) rs 1, rs ! 2, rs ! 3, rs ! 4]
         \<and> sponsored_count (slot_plan g rs ps) = 1
         \<and> length (optimize_ad_slots_tool g rs ps) = 6"
proof -
  obtain a b c d e where rs: "rs = [a, b, c, d, e]" using list5 [OF assms(1)] by blast
  obtain p q where ps: "ps = [p, q]" using list2 [OF assms(2)] by blast
  have plan: "slot_plan g rs ps =
           [Organic (rs ! 0), Organic (rs ! 1), Sponsored (g (ps ! 0) rs 1),
            Organic (rs ! 2), Organic (rs ! 3), Organic (rs ! 4)]"
    by (simp add: rs ps slot_plan_def tagged_strategy_def calculate_insertion_positions_def
        tagged_step_def Let_def enumerate_eq_zip upt_rec)
  have "optimize_ad_slots_tool g rs ps = map slot_text (slot_plan g rs ps)"
    by (simp only: slot_plan_text)
  with plan show ?thesis by (simp add: sponsored_count_def)
qed

theorem five_results_two_promotions_witness:
  "length test_search_results = 5 \<and> length [aws_ec2_1, laptop_deal_1] = 2
   \<and> optimize_ad_slots_tool demo_ad test_search_results [aws_ec2_1, laptop_deal_1] =
       [''Best cloud hosting providers 2024'', ''How to choose web hosting'',
        ''[SPONSORED] AWS EC2 Instance Discount'',
        ''Cloud computing guide'', ''Server management tips'',
        ''Website performance optimization'']"
proof -
  have 1: "length test_search_results = 5" by (simp add: test_search_results_def)
  have 2: "length [aws_ec2_1, laptop_deal_1] = 2" by simp
  show ?thesis
    using five_results_two_promotions [OF 1 2, of demo_ad]
    by (simp add: test_search_results_def demo_ad_def aws_ec2_1_def dict_get_def)
qed

text \<open>
  The statement of C1 with two sponsored slots and an output of seven items fails on the
  five results of the test suite with two promotions.
\<close>

theorem five_results_two_promotions_counterexample:
  "length test_search_results = 5 \<and> length [aws_ec2_1, laptop_deal_1] = 2
   \<and> sponsored_count (slot_plan demo_ad test_search_results [aws_ec2_1, laptop_deal_1]) \<noteq> 2
   \<and> length (optimize_ad_slots_tool demo_ad test_search_results [aws_ec2_1, laptop_deal_1]) \<noteq> 7
   \<and> slot_plan demo_ad test_search_results [aws_ec2_1, laptop_deal_1] =
       [Organic ''Best cloud hosting providers 2024'', Organic ''How to choose web hosting'',
        Sponsored ''[SPONSORED] AWS EC2 Instance Discount'',
        Organic ''Cloud computing guide'', Organic ''Server management tips'',
        Organic ''Website performance optimization'']"
  by (simp add: test_search_results_def slot_plan_def tagged_strategy_def
      optimize_ad_slots_tool_def optimize_insertion_strategy_def insertion_step_def
      calculate_insertion_positions_def tagged_step_def Let_def enumerate_eq_zip upt_rec
      sponsored_count_def demo_ad_def aws_ec2_1_def dict_get_def)

text \<open>
  Claim C4. For an organic list of at least two items and a non-empty promotion list, the
  first output item is the first organic item and is not sponsored, the number of
  sponsored items is at most the minimum of the number of promotions, \<open>3\<close> and a third
  of the number of organic items (rounded down), and the output has as many items as
  the organic list plus the sponsored items.
\<close>

theorem placement_invariants:
  assumes "2 \<le> length rs" and "ps \<noteq> []"
  shows "optimize_ad_slots_tool g rs ps = map slot_text (slot_plan g rs ps)
         \<and> slot_plan g rs ps ! 0 = Organic (rs ! 0)
         \<and> optimize_ad_slots_tool g rs ps ! 0 = rs ! 0
         \<and> sponsored_count (slot_plan g rs ps) \<le> min (length ps) (min 3 (length rs div 3))
         \<and> length (optimize_ad_slots_tool g rs ps)
             = length rs + sponsored_count (slot_plan g rs ps)"
proof -
  from assms have ne: "rs \<noteq> []" by auto
  with assms have sp: "slot_plan g rs ps = tagged_strategy g rs ps"
    by (simp add: slot_plan_def)
  note sh = tagged_strategy_shape [OF ne, of g ps]
  have len: "length (slot_plan g rs ps) = length rs + sponsored_count (slot_plan g rs ps)"
    using sh by (simp add: sp)
  then have pne: "slot_plan g rs ps \<noteq> []" using ne by auto
  have h: "slot_plan g rs ps ! 0 = Organic (rs ! 0)"
    using sh pne ne by (simp add: sp hd_conv_nth)
  have t: "optimize_ad_slots_tool g rs ps = map slot_text (slot_plan g rs ps)"
    by (simp only: slot_plan_text)
  have "optimize_ad_slots_tool g rs ps ! 0 = slot_text (slot_plan g rs ps ! 0)"
    using pne by (simp add: t)
  with h len sh show ?thesis by (simp add: t sp)
qed

theorem placement_invariants_witness:
  "2 \<le> length test_search_results \<and> [aws_ec2_1, laptop_deal_1] \<noteq> []
   \<and> slot_plan demo_ad test_search_results [aws_ec2_1, laptop_deal_1] ! 0
       = Organic ''Best cloud hosting providers 2024''
   \<and> sponsored_count (slot_plan demo_ad test_search_results [aws_ec2_1, laptop_deal_1]) \<le> 1
   \<and> length (optimize_ad_slots_tool demo_ad test_search_results [aws_ec2_1, laptop_deal_1])
       = 5 + sponsored_count (slot_plan demo_ad test_search_results [aws_ec2_1, laptop_deal_1])"
proof -
  have 1: "2 \<le> length test_search_results" by (simp add: test_search_results_def)
  have 2: "[aws_ec2_1, laptop_deal_1] \<noteq> []" by simp
  show ?thesis
    using placement_invariants [OF 1 2, of demo_ad, THEN conjunct2]
    by (simp add: test_search_results_def)
qed

text \<open>
  Claim C6. An empty organic list gives an empty output whatever the promotions are, an
  empty promotion list gives the organic list back, and an organic list of fewer than two
  items is returned unchanged, every item of the plan being organic.
\<close>

theorem placement_pass_through:
  "optimize_ad_slots_tool g [] ps = []
   \<and> optimize_ad_slots_tool g rs [] = rs
   \<and> (length rs < 2 \<longrightarrow>
        optimize_ad_slots_tool g rs ps = rs \<and> slot_plan g rs ps = map Organic rs)"
  by (auto simp add: optimize_ad_slots_tool_def optimize_insertion_strategy_def slot_plan_def
      tagged_strategy_def)

theorem placement_pass_through_witness:
  "length [''Cloud hosting comparison''] < 2
   \<and> optimize_ad_slots_tool demo_ad [''Cloud hosting comparison''] [aws_ec2_1, laptop_deal_1]
       = [''Cloud hosting comparison'']
   \<and> slot_plan demo_ad [''Cloud hosting comparison''] [aws_ec2_1, laptop_deal_1]
       = [Organic ''Cloud hosting comparison'']
   \<and> optimize_ad_slots_tool demo_ad [] [aws_ec2_1] = []
   \<and> optimize_ad_slots_tool demo_ad test_search_results [] = test_search_results"
  using placement_pass_through [of demo_ad "[aws_ec2_1, laptop_deal_1]" "[''Cloud hosting comparison'']"]
    placement_pass_through [of demo_ad "[aws_ec2_1]" test_search_results]
  by simp

section \<open>Sorting with \<^verbatim>\<open>reverse=True\<close>\<close>

lemma py_sort_reverse_mset: "mset (py_sort_reverse key xs) = mset xs"
  by (simp add: py_sort_reverse_def)

lemma py_sort_reverse_length: "length (py_sort_reverse key xs) = length xs"
  by (simp add: py_sort_reverse_def)

lemma py_sort_reverse_sorted:
  "sorted_wrt (\<lambda>a b. key a \<ge> key b) (py_sort_reverse key xs)"
proof -
  have "sorted (map key (sort_key key (rev xs)))" by simp
  then have "sorted_wrt (\<lambda>a b. key a \<le> key b) (sort_key key (rev xs))"
    by (simp add: sorted_map)
  then show ?thesis
    by (simp add: py_sort_reverse_def sorted_wrt_rev)
qed

lemma py_sort_reverse_stable:
  "filter (\<lambda>y. key y = k) (py_sort_reverse key xs) = filter (\<lambda>y. key y = k) xs"
  by (simp add: py_sort_reverse_def rev_filter [symmetric] sort_key_stable)

section \<open>Ranking features and the fallback scorer\<close>

text \<open>
  Claim C9. The sixth feature is \<open>0\<close> for the user type \<^verbatim>\<open>casual\<close>, \<open>0.5\<close> for
  \<^verbatim>\<open>professional\<close>, \<open>1\<close> for \<^verbatim>\<open>enterprise\<close> and \<open>0\<close> for every other value; in
  particular it is \<open>0\<close> for \<^verbatim>\<open>business\<close> and for a profile without the key
  \<^verbatim>\<open>user_type\<close>.
\<close>

theorem user_type_numeric:
  "length (extract_features promotion profile) = 6
   \<and> extract_features promotion profile ! 5 =
        (case user_type profile of
           None \<Rightarrow> 0
         | Some t \<Rightarrow> if t = ''casual'' then 0 else if t = ''professional'' then 0.5
                     else if t = ''enterprise'' then 1 else 0)
   \<and> extract_features promotion (profile\<lparr>user_type := Some ''business''\<rparr>) ! 5 = 0
   \<and> extract_features promotion (profile\<lparr>user_type := None\<rparr>) ! 5 = 0"
  by (simp add: extract_features_def Let_def dict_get_def split: option.splits)

theorem user_type_numeric_witness:
  "length (extract_features aws_ec2_1 business_profile) = 6
   \<and> extract_features aws_ec2_1 business_profile ! 5 = 0
   \<and> extract_features aws_ec2_1 test_profile ! 5 = 0.5"
  using user_type_numeric [of aws_ec2_1 business_profile]
    user_type_numeric [of aws_ec2_1 test_profile]
  by (simp add: business_profile_def test_profile_def)

lemma np_random_normal_length:
  "length (fst (np_random_normal draw loc scale n g)) = n"
proof (induction n arbitrary: g)
  case 0
  show ?case by simp
next
  case (Suc n)
  obtain z g1 where d: "draw g = (z, g1)" by (cases "draw g")
  obtain zs g2 where r: "np_random_normal draw loc scale n g1 = (zs, g2)"
    by (cases "np_random_normal draw loc scale n g1")
  from Suc.IH [of g1] r have "length zs = n" by simp
  then show ?case by (simp add: d r)
qed

lemma np_dot_rows_length:
  "np_dot_rows rows w = Inr ds \<Longrightarrow> length ds = length rows"
  by (induction rows arbitrary: ds) (auto split: sum.splits)

lemma np_dot_rows_total:
  "\<forall>row \<in> set rows. length row = length w \<Longrightarrow> \<exists>ds. np_dot_rows rows w = Inr ds"
  by (induction rows) (auto simp add: np_dot_def split: sum.splits)

lemma np_clip_bounds: "lo \<le> hi \<Longrightarrow> lo \<le> np_clip x lo hi \<and> np_clip x lo hi \<le> hi"
  by (auto simp add: np_clip_def)

lemma mock_predict_bounds:
  assumes "mock_predict rt features g = Inr (scores, g')"
  shows "length scores = length features \<and> (\<forall>s \<in> set scores. 0.01 \<le> s \<and> s \<le> 0.5)"
proof -
  from assms obtain ds where ds: "np_dot_rows features [0.4, 0.3, 0.2, 0.05, 0.03, 0.02] = Inr ds"
    by (auto simp add: mock_predict_def Let_def split: sum.splits)
  define gen where "gen = np_random_normal (gauss rt) 0 0.02 (length ds)
        (random_seed rt (nat (hash_features rt features mod 2 ^ 32)))"
  have sc: "scores = map (\<lambda>x. np_clip x 0.01 0.5) (map (\<lambda>(x, y). x + y) (zip ds (fst gen)))"
    using assms ds by (auto simp add: mock_predict_def Let_def gen_def split: prod.splits)
  have "length (fst gen) = length ds"
    by (simp add: gen_def np_random_normal_length)
  then have "length scores = length features"
    using np_dot_rows_length [OF ds] by (simp add: sc)
  moreover have "\<forall>s \<in> set scores. 0.01 \<le> s \<and> s \<le> 0.5"
    using np_clip_bounds [of "0.01" "0.5"] by (auto simp add: sc)
  ultimately show ?thesis by blast
qed

lemma extract_features_length: "length (extract_features c p) = 6"
  by (simp add: extract_features_def Let_def)

text \<open>
  Claim C8. On the feature vectors that feature extraction produces, the fallback scorer
  returns, and it returns one score per vector, each between \<open>0.01\<close> and \<open>0.5\<close>.
\<close>

theorem fallback_score_bounds:
  "\<exists>scores g'.
      mock_predict rt (map (\<lambda>candidate. extract_features candidate profile) candidates) g
        = Inr (scores, g')
      \<and> length scores = length candidates
      \<and> (\<forall>s \<in> set scores. 0.01 \<le> s \<and> s \<le> 0.5)"
proof -
  let ?fs = "map (\<lambda>candidate. extract_features candidate profile) candidates"
  have "\<forall>row \<in> set ?fs. length row = length [0.4, 0.3, 0.2, 0.05, 0.03, 0.02 :: real]"
    by (auto simp add: extract_features_length)
  from np_dot_rows_total [OF this] obtain ds
    where "np_dot_rows ?fs [0.4, 0.3, 0.2, 0.05, 0.03, 0.02] = Inr ds" by blast
  then have "\<exists>scores g'. mock_predict rt ?fs g = Inr (scores, g')"
    by (simp add: mock_predict_def Let_def split: prod.splits)
  then obtain scores g' where m: "mock_predict rt ?fs g = Inr (scores, g')"
    by blast
  from mock_predict_bounds [OF m] m show ?thesis by auto
qed

lemma sample_scores:
  "mock_predict sample_runtime
     (map (\<lambda>candidate. extract_features candidate test_profile) [aws_ec2_1, laptop_deal_1]) 0
   = Inr ([1 / 2, 29 / 125], 4)"
  by (simp add: mock_predict_def sample_runtime_def extract_features_def Let_def dict_get_def
      aws_ec2_1_def laptop_deal_1_def test_profile_def calculate_budget_compatibility_def
      np_dot_def np_clip_def)

theorem fallback_score_bounds_witness:
  "mock_predict sample_runtime
     (map (\<lambda>candidate. extract_features candidate test_profile) [aws_ec2_1, laptop_deal_1]) 0
   = Inr ([1 / 2, 29 / 125], 4)
   \<and> (0.01 :: real) \<le> 1 / 2 \<and> (1 / 2 :: real) \<le> 0.5
   \<and> (0.01 :: real) \<le> 29 / 125 \<and> (29 / 125 :: real) \<le> 0.5"
proof -
  obtain scores g' where
    m: "mock_predict sample_runtime
          (map (\<lambda>candidate. extract_features candidate test_profile) [aws_ec2_1, laptop_deal_1]) 0
        = Inr (scores, g')"
    and b: "\<forall>s \<in> set scores. 0.01 \<le> s \<and> s \<le> 0.5"
    using fallback_score_bounds [of sample_runtime test_profile "[aws_ec2_1, laptop_deal_1]" 0]
    by blast
  from m have "scores = [1 / 2, 29 / 125]"
    by (simp only: sample_scores sum.inject prod.inject)
  with b have "(0.01 :: real) \<le> 1 / 2 \<and> (1 / 2 :: real) \<le> 0.5
      \<and> (0.01 :: real) \<le> 29 / 125 \<and> (29 / 125 :: real) \<le> 0.5"
    by simp
  then show ?thesis by (simp only: sample_scores simp_thms)
qed

section \<open>Ranking\<close>

lemma booster_predict_length:
  "booster_predict f rows = Inr ys \<Longrightarrow> length ys = length rows"
  by (induction rows arbitrary: ys) (auto split: option.splits sum.splits)

lemma entry_ids:
  "length scs = length cs \<Longrightarrow>
     map rp_id (map (\<lambda>(i, (c, sc)). ranked_entry i c sc) (enumerate n (zip cs scs)))
       = map (\<lambda>(i, c). dict_get (promo_id c) (''promo_'' @ str_of_nat i)) (enumerate n cs)"
proof (induction cs arbitrary: scs n)
  case Nil
  then show ?case by simp
next
  case (Cons c cs)
  then obtain s ss where "scs = s # ss" by (cases scs) auto
  with Cons show ?case by (simp add: ranked_entry_def)
qed

lemma fallback_ids:
  "map rp_id (map (\<lambda>(i, c). ranked_entry i c x) (enumerate n cs))
       = map (\<lambda>(i, c). dict_get (promo_id c) (''promo_'' @ str_of_nat i)) (enumerate n cs)"
  by (induction cs arbitrary: n) (auto simp add: ranked_entry_def)

lemma sorted_const_key:
  "\<forall>e \<in> set xs. key e = (c :: 'k :: linorder) \<Longrightarrow> sorted (map key xs)"
  by (induction xs) auto

lemma rank_promotions_Inr:
  assumes "rank_promotions rt r candidates profile g = Inr (ranked, g')"
  shows "\<exists>scores. length scores = length candidates
           \<and> ranked = py_sort_reverse rp_score
                (map (\<lambda>(i, (c, sc)). ranked_entry i c sc) (enumerate 0 (zip candidates scores)))"
proof (cases "candidates = []")
  case True
  with assms have "ranked = []" by (simp add: rank_promotions_def)
  with True show ?thesis by (simp add: py_sort_reverse_def)
next
  case False
  let ?fs = "map (\<lambda>candidate. extract_features candidate profile) candidates"
  show ?thesis
  proof (cases "model_type r = ''lightgbm'' \<and> booster r \<noteq> None")
    case True
    with assms False obtain scores where
      b: "booster_predict (the (booster r)) ?fs = Inr scores" and
      rk: "ranked = py_sort_reverse rp_score
            (map (\<lambda>(i, (c, sc)). ranked_entry i c sc) (enumerate 0 (zip candidates scores)))"
      by (auto simp add: rank_promotions_def Let_def split: sum.splits)
    from booster_predict_length [OF b] rk show ?thesis by auto
  next
    case nb: False
    with assms False obtain scores g2 where
      b: "mock_predict rt ?fs g = Inr (scores, g2)" and
      rk: "ranked = py_sort_reverse rp_score
            (map (\<lambda>(i, (c, sc)). ranked_entry i c sc) (enumerate 0 (zip candidates scores)))"
      by (auto simp add: rank_promotions_def Let_def split: sum.splits)
    from mock_predict_bounds [OF b] rk show ?thesis by auto
  qed
qed

text \<open>
  Claim C5. For every ranker, candidate list and profile the ranking tool returns one
  entry per candidate: the output has the length of the input, its identifiers are those
  of the candidates (as a multiset), it is sorted by non-increasing score, and entries of
  equal score are in the order of their candidates: for every score, the entries with
  that score are, in order, those of the list of entries in input order. The empty
  candidate list gives the empty ranking.
\<close>

theorem rank_totality:
  "rank_promotions_tool rt r [] profile g = ([], g)
   \<and> length (fst (rank_promotions_tool rt r candidates profile g)) = length candidates
   \<and> mset (map rp_id (fst (rank_promotions_tool rt r candidates profile g)))
       = mset (candidate_ids candidates)
   \<and> sorted_wrt (\<lambda>a b. rp_score a \<ge> rp_score b)
        (fst (rank_promotions_tool rt r candidates profile g))
   \<and> (\<exists>entries.
         map rp_id entries = candidate_ids candidates
         \<and> (\<forall>v. filter (\<lambda>e. rp_score e = v) (fst (rank_promotions_tool rt r candidates profile g))
                = filter (\<lambda>e. rp_score e = v) entries))"
proof -
  let ?out = "fst (rank_promotions_tool rt r candidates profile g)"
  have "\<exists>entries. map rp_id entries = candidate_ids candidates
          \<and> ?out = py_sort_reverse rp_score entries"
  proof (cases "candidates = []")
    case True
    then show ?thesis
      by (simp add: rank_promotions_tool_def candidate_ids_def py_sort_reverse_def)
  next
    case False
    show ?thesis
    proof (cases "rank_promotions rt r candidates profile g")
      case (Inl e)
      let ?fb = "map (\<lambda>(i, candidate). ranked_entry i candidate 0.1) (enumerate 0 candidates)"
      from Inl False have o: "?out = ?fb"
        by (simp add: rank_promotions_tool_def)
      have "sort_key rp_score (rev ?fb) = rev ?fb"
      proof -
        have "\<forall>e \<in> set (rev ?fb). rp_score e = 0.1"
          by (auto simp add: ranked_entry_def)
        then have "sorted (map rp_score (rev ?fb))"
          by (rule sorted_const_key)
        then show ?thesis by (rule sort_key_id_if_sorted)
      qed
      then have "py_sort_reverse rp_score ?fb = ?fb"
        by (simp only: py_sort_reverse_def rev_rev_ident)
      with o have "?out = py_sort_reverse rp_score ?fb" by (simp only:)
      moreover have "map rp_id ?fb = candidate_ids candidates"
        by (simp only: candidate_ids_def fallback_ids)
      ultimately show ?thesis by blast
    next
      case (Inr p)
      obtain ranked g' where p: "p = (ranked, g')" by (cases p)
      from Inr False have o: "?out = ranked"
        by (simp add: rank_promotions_tool_def p)
      from rank_promotions_Inr [OF Inr [unfolded p]] obtain scores where
        l: "length scores = length candidates" and
        rk: "ranked = py_sort_reverse rp_score
            (map (\<lambda>(i, (c, sc)). ranked_entry i c sc) (enumerate 0 (zip candidates scores)))"
        by blast
      from o rk have "?out = py_sort_reverse rp_score
            (map (\<lambda>(i, (c, sc)). ranked_entry i c sc) (enumerate 0 (zip candidates scores)))"
        by (simp only:)
      moreover have "map rp_id
            (map (\<lambda>(i, (c, sc)). ranked_entry i c sc) (enumerate 0 (zip candidates scores)))
          = candidate_ids candidates"
        by (simp only: candidate_ids_def entry_ids [OF l])
      ultimately show ?thesis by blast
    qed
  qed
  then obtain entries where
    ids: "map rp_id entries = candidate_ids candidates" and
    out: "?out = py_sort_reverse rp_score entries" by blast
  have len: "length ?out = length candidates"
  proof -
    have "length ?out = length (map rp_id entries)"
      by (simp add: out py_sort_reverse_length)
    then show ?thesis by (simp add: ids candidate_ids_def)
  qed
  have ms: "mset (map rp_id ?out) = mset (candidate_ids candidates)"
  proof -
    have "mset (map rp_id ?out) = mset (map rp_id entries)"
      by (simp only: out mset_map py_sort_reverse_mset)
    then show ?thesis by (simp only: ids)
  qed
  have so: "sorted_wrt (\<lambda>a b. rp_score a \<ge> rp_score b) ?out"
    by (simp only: out py_sort_reverse_sorted)
  have st: "\<forall>v. filter (\<lambda>e. rp_score e = v) ?out = filter (\<lambda>e. rp_score e = v) entries"
    by (simp only: out py_sort_reverse_stable simp_thms)
  have e: "rank_promotions_tool rt r [] profile g = ([], g)"
    by (simp add: rank_promotions_tool_def)
  from e len ms so ids st show ?thesis by blast
qed

lemma sample_ranking:
  "rank_promotions_tool sample_runtime mock_ranker [laptop_deal_1, aws_ec2_1] test_profile 0
     = ([\<lparr>rp_id = ''aws-ec2-1'', rp_score = 1 / 2\<rparr>,
         \<lparr>rp_id = ''laptop-deal-1'', rp_score = 29 / 125\<rparr>], 4)"
  by (simp add: rank_promotions_tool_def rank_promotions_def mock_ranker_def
      mock_predict_def sample_runtime_def extract_features_def Let_def dict_get_def
      aws_ec2_1_def laptop_deal_1_def test_profile_def calculate_budget_compatibility_def
      np_dot_def np_clip_def ranked_entry_def py_sort_reverse_def)

theorem rank_totality_witness:
  "fst (rank_promotions_tool sample_runtime mock_ranker [laptop_deal_1, aws_ec2_1] test_profile 0)
     = [\<lparr>rp_id = ''aws-ec2-1'', rp_score = 1 / 2\<rparr>,
        \<lparr>rp_id = ''laptop-deal-1'', rp_score = 29 / 125\<rparr>]
   \<and> length (fst (rank_promotions_tool sample_runtime mock_ranker [laptop_deal_1, aws_ec2_1]
                    test_profile 0)) = length [laptop_deal_1, aws_ec2_1]
   \<and> rank_promotions_tool sample_runtime mock_ranker [] test_profile 0 = ([], 0)"
  using rank_totality [of sample_runtime mock_ranker test_profile 0 "[laptop_deal_1, aws_ec2_1]"]
  by (simp only: sample_ranking fst_conv simp_thms)

section \<open>The fallback embedding\<close>

lemma mock_embeddings_Cons:
  "mock_embeddings rt (text # texts) g =
     (let e = mock_sample rt text;
          g' = snd (np_random_normal (gauss rt) 0 1 384
                 (random_seed rt (nat (py_hash rt (str_lower text) mod 1000000))));
          r = mock_embeddings rt texts g'
      in (map (\<lambda>x. x / np_linalg_norm e) e # fst r, snd r))"
  by (simp add: mock_sample_def Let_def split: prod.splits)

lemma mock_embeddings_state_independent:
  assumes "texts \<noteq> []"
  shows "mock_embeddings rt texts g1 = mock_embeddings rt texts g2"
proof -
  from assms obtain t ts where "texts = t # ts" by (auto simp add: neq_Nil_conv)
  then show ?thesis by (simp only: mock_embeddings_Cons)
qed

lemma sum_list_squares_nonneg: "0 \<le> sum_list (map (\<lambda>x. x * x) (v :: real list))"
  by (induction v) auto

lemma sum_list_scaled_squares:
  "sum_list (map (\<lambda>x. (x / n) * (x / n)) (v :: real list)) = sum_list (map (\<lambda>x. x * x) v) / (n * n)"
  by (induction v) (auto simp add: add_divide_distrib)

lemma normalised_unit_norm:
  assumes "np_linalg_norm v \<noteq> 0"
  shows "np_linalg_norm (map (\<lambda>x. x / np_linalg_norm v) v) = 1"
proof -
  define q where "q = sum_list (map (\<lambda>x. x * x) v)"
  define n where "n = np_linalg_norm v"
  have q0: "0 \<le> q" by (simp add: q_def sum_list_squares_nonneg)
  have n: "n = sqrt q" by (simp add: n_def np_linalg_norm_def q_def)
  have nn: "n * n = q" using q0 by (simp add: n)
  from assms have n0: "n \<noteq> 0" by (simp add: n_def)
  have "sum_list (map (\<lambda>x. (x / n) * (x / n)) v) = q / (n * n)"
    by (simp only: sum_list_scaled_squares q_def)
  also have "\<dots> = 1" using n0 by (simp add: nn [symmetric])
  finally have one: "sum_list (map (\<lambda>x. (x / n) * (x / n)) v) = 1" .
  have "np_linalg_norm (map (\<lambda>x. x / n) v) = sqrt (sum_list (map (\<lambda>x. (x / n) * (x / n)) v))"
    unfolding np_linalg_norm_def map_map comp_def by (rule refl)
  also have "\<dots> = 1" by (simp only: one real_sqrt_one)
  finally show ?thesis by (simp only: n_def)
qed

text \<open>
  Claim C7. Without a loaded model, encoding a text gives the same vector from every
  state of the random generator, in particular when the text is encoded twice in a row;
  the vector has 384 entries, and its Euclidean norm is \<open>1\<close> whenever the sample drawn
  for it is not the zero vector.
\<close>

theorem mock_encode_deterministic:
  assumes "st_model em = None"
  shows "fst (encode rt em [text] g1) = fst (encode rt em [text] g2)
         \<and> fst (encode rt em [text] (snd (encode rt em [text] g1))) = fst (encode rt em [text] g1)
         \<and> length (fst (encode rt em [text] g1)) = 1
         \<and> length (fst (encode rt em [text] g1) ! 0) = 384
         \<and> (np_linalg_norm (mock_sample rt text) \<noteq> 0 \<longrightarrow>
              np_linalg_norm (fst (encode rt em [text] g1) ! 0) = 1)"
proof -
  have enc: "encode rt em [text] g = mock_embeddings rt [text] g" for g
    using assms by (simp add: encode_def)
  have ind: "mock_embeddings rt [text] g = mock_embeddings rt [text] g'" for g g'
    by (rule mock_embeddings_state_independent) simp
  have row: "fst (mock_embeddings rt [text] g1)
               = [map (\<lambda>x. x / np_linalg_norm (mock_sample rt text)) (mock_sample rt text)]"
    by (simp only: mock_embeddings_Cons Let_def mock_embeddings.simps fst_conv)
  have len: "length (mock_sample rt text) = 384"
    by (simp only: mock_sample_def np_random_normal_length)
  have c1: "fst (encode rt em [text] g1) = fst (encode rt em [text] g2)"
    by (simp only: enc ind [of g1 g2])
  have c2: "fst (encode rt em [text] (snd (encode rt em [text] g1))) = fst (encode rt em [text] g1)"
    by (simp only: enc ind [of "snd (mock_embeddings rt [text] g1)" g1])
  have c3: "length (fst (encode rt em [text] g1)) = 1"
    unfolding enc row by simp
  have c4: "length (fst (encode rt em [text] g1) ! 0) = 384"
    unfolding enc row using len by simp
  have c5: "np_linalg_norm (mock_sample rt text) \<noteq> 0 \<longrightarrow>
              np_linalg_norm (fst (encode rt em [text] g1) ! 0) = 1"
    unfolding enc row using normalised_unit_norm [of "mock_sample rt text"] by simp
  from c1 c2 c3 c4 c5 show ?thesis by blast
qed

lemma constant_draws:
  "np_random_normal (\<lambda>g. (1, Suc g)) 0 1 n g = (replicate n 1, g + n)"
  by (induction n arbitrary: g) simp_all

lemma sample_runtime_sample: "mock_sample sample_runtime text = replicate 384 1"
  by (simp add: mock_sample_def sample_runtime_def constant_draws)

theorem mock_encode_deterministic_witness:
  "st_model mock_model = None
   \<and> np_linalg_norm (mock_sample sample_runtime ''cloud hosting'') \<noteq> 0
   \<and> np_linalg_norm (fst (encode sample_runtime mock_model [''cloud hosting''] 0) ! 0) = 1
   \<and> length (fst (encode sample_runtime mock_model [''cloud hosting''] 0) ! 0) = 384
   \<and> fst (encode sample_runtime mock_model [''cloud hosting''] 0)
       = fst (encode sample_runtime mock_model [''cloud hosting''] 7)"
proof -
  have 1: "st_model mock_model = None" by (simp add: mock_model_def)
  have 2: "np_linalg_norm (mock_sample sample_runtime ''cloud hosting'') \<noteq> 0"
    by (simp add: sample_runtime_sample np_linalg_norm_def sum_list_replicate)
  show ?thesis
    using mock_encode_deterministic [OF 1, of sample_runtime "''cloud hosting''" 0 7] 1 2
    by blast
qed

section \<open>Profile boost\<close>

text \<open>
  Claim C3. The boosted score is the base score plus \<open>0.1\<close> for every tag that the
  profile's interests and the promotion's categories share, plus \<open>0.05\<close> when budget
  level and price tier are equal, \<open>0.02\<close> for a high budget with a medium tier or a
  medium budget with a low tier, and nothing otherwise, the sum capped at \<open>1\<close>. It is
  at most \<open>1\<close> and is not raised from below: it is never smaller than the smaller of the
  base score and \<open>1\<close>. An absent key reads as the default of the source
  (\<^verbatim>\<open>medium\<close>, the empty list).
\<close>

theorem profile_boost:
  "apply_user_profile_boost base_score promotion profile =
     min (base_score
          + 0.1 * real (card (set (dict_get (interests profile) [])
                              \<inter> set (dict_get (categories promotion) [])))
          + (let user_budget = dict_get (budget_level profile) ''medium'';
                 promo_price_tier = dict_get (price_tier promotion) ''medium''
             in if user_budget = promo_price_tier then 0.05
                else if (user_budget = ''high'' \<and> promo_price_tier = ''medium'')
                        \<or> (user_budget = ''medium'' \<and> promo_price_tier = ''low'') then 0.02
                else 0))
         1
   \<and> apply_user_profile_boost base_score promotion profile \<le> 1
   \<and> apply_user_profile_boost base_score promotion profile \<ge> min base_score 1"
  by (auto simp add: apply_user_profile_boost_def Let_def min_def)

theorem profile_boost_witness:
  "apply_user_profile_boost 0.95 aws_ec2_1 test_profile = 1
   \<and> apply_user_profile_boost 0.5 aws_ec2_1 test_profile = 0.75
   \<and> apply_user_profile_boost (- 0.3) laptop_deal_1 test_profile = - 0.3"
  using profile_boost [of "0.95" aws_ec2_1 test_profile]
    profile_boost [of "0.5" aws_ec2_1 test_profile]
    profile_boost [of "- 0.3" laptop_deal_1 test_profile]
  by (simp add: aws_ec2_1_def laptop_deal_1_def test_profile_def dict_get_def)

section \<open>Search\<close>

lemma build_index_frame:
  "idx_promotions (build_index rt force s) = idx_promotions s
   \<and> heap (build_index rt force s) = heap s
   \<and> idx_embedder (build_index rt force s) = idx_embedder s"
  by (simp add: build_index_def Let_def split: prod.splits)

lemma similarities_loop_indices:
  "similarities_loop q prof proms hp xs = Inr sims \<Longrightarrow> map snd sims = map fst xs"
proof (induction xs arbitrary: sims)
  case Nil
  then show ?case by simp
next
  case (Cons x xs)
  obtain i e where x: "x = (i, e)" by (cases x)
  from Cons.prems obtain rest where
    r: "similarities_loop q prof proms hp xs = Inr rest" and
    s: "\<exists>v. sims = (v, i) # rest"
    by (auto simp add: x Let_def split: sum.splits if_splits)
  from Cons.IH [OF r] s show ?case by (auto simp add: x)
qed

lemma results_loop_Inr:
  assumes "results_loop proms pairs hp = Inr (results, hp')"
    and "\<forall>a \<in> set proms. a < length hp"
  shows "results = [length hp ..< length hp + length pairs]
         \<and> hp' = hp @ map (\<lambda>(sim, idx). (hp ! (proms ! idx))\<lparr>score := Some sim\<rparr>) pairs
         \<and> (\<forall>p \<in> set pairs. snd p < length proms)"
  using assms
proof (induction pairs arbitrary: hp results hp')
  case Nil
  then show ?case by simp
next
  case (Cons p pairs)
  obtain sim idx where p: "p = (sim, idx)" by (cases p)
  define x where "x = (hp ! (proms ! idx))\<lparr>score := Some sim\<rparr>"
  define hp2 where "hp2 = hp @ [x]"
  from Cons.prems(1) have idx: "idx < length proms"
    by (auto simp add: p split: if_splits)
  from Cons.prems(1) idx obtain rs where
    r: "results_loop proms pairs hp2 = Inr (rs, hp')" and res: "results = length hp # rs"
    by (auto simp add: p Let_def hp2_def x_def split: sum.splits)
  have ok2: "\<forall>a \<in> set proms. a < length hp2"
    using Cons.prems(2) by (auto simp add: hp2_def)
  note ih = Cons.IH [OF r ok2]
  have same: "hp2 ! (proms ! j) = hp ! (proms ! j)" if "j < length proms" for j
    using that Cons.prems(2) by (simp add: hp2_def nth_append)
  have m: "map (\<lambda>(sim, idx). (hp2 ! (proms ! idx))\<lparr>score := Some sim\<rparr>) pairs
         = map (\<lambda>(sim, idx). (hp ! (proms ! idx))\<lparr>score := Some sim\<rparr>) pairs"
    using ih same by (auto simp add: split_def)
  have l2: "length hp2 = Suc (length hp)" by (simp add: hp2_def)
  have u: "[length hp ..< length hp + length (p # pairs)]
             = length hp # [Suc (length hp) ..< Suc (length hp) + length pairs]"
    by (subst upt_conv_Cons) simp_all
  from ih have "rs = [Suc (length hp) ..< Suc (length hp) + length pairs]"
    by (simp only: l2)
  then have "results = [length hp ..< length hp + length (p # pairs)]"
    by (simp only: u res)
  moreover have "hp' = hp @ map (\<lambda>(sim, idx). (hp ! (proms ! idx))\<lparr>score := Some sim\<rparr>) (p # pairs)"
    using ih m by (simp add: hp2_def x_def p)
  moreover have "\<forall>q \<in> set (p # pairs). snd q < length proms"
    using ih idx by (simp add: p)
  ultimately show ?case by blast
qed

lemma py_sort_reverse_strict:
  assumes "distinct xs"
  shows "sorted_wrt (\<lambda>a b. a > b) (py_sort_reverse (\<lambda>t. t) xs)"
proof -
  have "sorted (sort (rev xs))" and "distinct (sort (rev xs))"
    using assms by simp_all
  then have "sorted_wrt (<) (sort (rev xs))"
    by (simp add: strict_sorted_iff)
  then show ?thesis
    by (simp add: py_sort_reverse_def sorted_wrt_rev)
qed

lemma search_unfold:
  assumes "s1 = (if \<not> idx_built s then build_index rt False s else s)"
  shows "search rt query top_k user_profile s =
     (if idx_promotions s1 = [] \<or> idx_embeddings s1 = None then Inr ([], s1)
      else
        (case encode rt (idx_embedder s1) [query] (rng s1) of
           (encoded, g) \<Rightarrow>
             (case encoded of
                [] \<Rightarrow> Inl IndexError
              | query_embedding # _ \<Rightarrow>
                  (case similarities_loop query_embedding user_profile
                          (idx_promotions (s1\<lparr>rng := g\<rparr>)) (heap (s1\<lparr>rng := g\<rparr>))
                          (enumerate 0 (the (idx_embeddings (s1\<lparr>rng := g\<rparr>)))) of
                     Inl e \<Rightarrow> Inl e
                   | Inr similarities \<Rightarrow>
                       (case results_loop (idx_promotions (s1\<lparr>rng := g\<rparr>))
                               (py_slice_to (py_sort_reverse (\<lambda>t. t) similarities) top_k)
                               (heap (s1\<lparr>rng := g\<rparr>)) of
                          Inl e \<Rightarrow> Inl e
                        | Inr (results, hp) \<Rightarrow> Inr (results, s1\<lparr>rng := g, heap := hp\<rparr>))))))"
  unfolding assms search_def Let_def by (rule refl)

lemma search_Inr:
  assumes "search rt query top_k user_profile s = Inr (results, s')"
    and "heap_ok s"
  shows "\<exists>sims pairs.
           pairs = py_slice_to (py_sort_reverse (\<lambda>t. t) sims) top_k
           \<and> distinct (map snd sims)
           \<and> (\<forall>p \<in> set pairs. snd p < length (idx_promotions s))
           \<and> idx_promotions s' = idx_promotions s
           \<and> results = [length (heap s) ..< length (heap s) + length pairs]
           \<and> heap s' = heap s @
                map (\<lambda>(sim, idx). (heap s ! (idx_promotions s ! idx))\<lparr>score := Some sim\<rparr>) pairs"
proof -
  define s1 where "s1 = (if \<not> idx_built s then build_index rt False s else s)"
  have fr: "idx_promotions s1 = idx_promotions s" "heap s1 = heap s"
    using build_index_frame [of rt False s] by (simp_all add: s1_def)
  note unf = search_unfold [OF s1_def, of query top_k user_profile]
  show ?thesis
  proof (cases "idx_promotions s1 = [] \<or> idx_embeddings s1 = None")
    case True
    with assms(1) have "results = []" and "s' = s1"
      by (simp_all add: unf)
    then have "[] = py_slice_to (py_sort_reverse (\<lambda>t. t) ([] :: (real \<times> nat) list)) top_k
        \<and> distinct (map snd ([] :: (real \<times> nat) list))
        \<and> (\<forall>p \<in> set ([] :: (real \<times> nat) list). snd p < length (idx_promotions s))
        \<and> idx_promotions s' = idx_promotions s
        \<and> results = [length (heap s) ..< length (heap s) + length ([] :: (real \<times> nat) list)]
        \<and> heap s' = heap s @
             map (\<lambda>(sim, idx). (heap s ! (idx_promotions s ! idx))\<lparr>score := Some sim\<rparr>) []"
      by (simp add: fr py_slice_to_def py_sort_reverse_def)
    then show ?thesis by blast
  next
    case False
    obtain encoded g where enc: "encode rt (idx_embedder s1) [query] (rng s1) = (encoded, g)"
      by (cases "encode rt (idx_embedder s1) [query] (rng s1)")
    from assms(1) False obtain qe sims hp where
      sl: "similarities_loop qe user_profile (idx_promotions s) (heap s)
             (enumerate 0 (the (idx_embeddings s1))) = Inr sims" and
      rl: "results_loop (idx_promotions s)
             (py_slice_to (py_sort_reverse (\<lambda>t. t) sims) top_k) (heap s) = Inr (results, hp)" and
      s': "s' = s1\<lparr>rng := g, heap := hp\<rparr>"
      by (auto simp add: unf enc fr split: list.splits sum.splits)
    from assms(2) have ok: "\<forall>a \<in> set (idx_promotions s). a < length (heap s)"
      by (simp add: heap_ok_def list_all_iff)
    note r = results_loop_Inr [OF rl ok]
    have "map snd sims = [0 ..< length (the (idx_embeddings s1))]"
      using similarities_loop_indices [OF sl] by (simp add: enumerate_eq_zip)
    then have d: "distinct (map snd sims)" by simp
    from r d s' fr show ?thesis by auto
  qed
qed

lemma bounded_distinct_length:
  assumes "distinct xs" and "\<forall>x \<in> set xs. x < (n :: nat)"
  shows "length xs \<le> n"
proof -
  have "length xs = card (set xs)" using assms(1) by (simp add: distinct_card)
  also have "\<dots> \<le> card {..<n}" using assms(2) by (intro card_mono) auto
  finally show ?thesis by simp
qed

lemma search_order_Inr:
  assumes "search rt query top_k user_profile s = Inr (results, s')"
    and "heap_ok s" and "0 \<le> top_k"
  shows "\<exists>pairs.
           length pairs = length results
           \<and> length results \<le> min (nat top_k) (length (idx_promotions s))
           \<and> (\<forall>j < length results.
                 snd (pairs ! j) < length (idx_promotions s)
                 \<and> heap s' ! (results ! j)
                     = (heap s ! (idx_promotions s ! snd (pairs ! j)))\<lparr>score := Some (fst (pairs ! j))\<rparr>)
           \<and> sorted_wrt (\<lambda>p q. fst p > fst q \<or> (fst p = fst q \<and> snd p > snd q)) pairs
           \<and> sorted_wrt (\<lambda>x y. x \<ge> y) (map fst pairs)"
proof -
  from search_Inr [OF assms(1,2)] obtain sims pairs where
    p: "pairs = py_slice_to (py_sort_reverse (\<lambda>t. t) sims) top_k" and
    d: "distinct (map snd sims)" and
    b: "\<forall>p \<in> set pairs. snd p < length (idx_promotions s)" and
    r: "results = [length (heap s) ..< length (heap s) + length pairs]" and
    h: "heap s' = heap s @
          map (\<lambda>(sim, idx). (heap s ! (idx_promotions s ! idx))\<lparr>score := Some sim\<rparr>) pairs"
    by blast
  have tk: "pairs = take (nat top_k) (py_sort_reverse (\<lambda>t. t) sims)"
    using assms(3) by (simp add: p py_slice_to_def)
  have ds: "distinct sims" using d by (simp add: distinct_map)
  have "sorted_wrt (\<lambda>a b. a > b) (py_sort_reverse (\<lambda>t. t) sims)"
    using ds by (rule py_sort_reverse_strict)
  then have st: "sorted_wrt (\<lambda>a b. a > b) pairs"
    by (simp add: tk sorted_wrt_take)
  have lex: "sorted_wrt (\<lambda>p q. fst p > fst q \<or> (fst p = fst q \<and> snd p > snd q)) pairs"
    by (rule sorted_wrt_mono_rel [OF _ st]) (auto simp add: less_prod_def)
  have dec: "sorted_wrt (\<lambda>x y. x \<ge> y) (map fst pairs)"
    unfolding sorted_wrt_map
    by (rule sorted_wrt_mono_rel [OF _ st]) (auto simp add: less_prod_def)
  have "distinct (map snd (py_sort_reverse (\<lambda>t. t) sims))"
    using d by (simp add: py_sort_reverse_def distinct_map inj_on_def)
  then have "distinct (map snd pairs)"
    by (simp add: tk take_map [symmetric] distinct_take)
  moreover have "\<forall>i \<in> set (map snd pairs). i < length (idx_promotions s)"
    using b by auto
  ultimately have "length (map snd pairs) \<le> length (idx_promotions s)"
    by (rule bounded_distinct_length)
  moreover have "length pairs \<le> nat top_k" by (simp add: tk)
  ultimately have len: "length pairs \<le> min (nat top_k) (length (idx_promotions s))"
    by simp
  have lr: "length pairs = length results" by (simp add: r)
  have pt: "\<forall>j < length results.
                 snd (pairs ! j) < length (idx_promotions s)
                 \<and> heap s' ! (results ! j)
                     = (heap s ! (idx_promotions s ! snd (pairs ! j)))\<lparr>score := Some (fst (pairs ! j))\<rparr>"
  proof (intro allI impI)
    fix j assume j: "j < length results"
    then have jp: "j < length pairs" by (simp add: lr)
    then have "snd (pairs ! j) < length (idx_promotions s)" using b by auto
    moreover have "results ! j = length (heap s) + j" using jp by (simp add: r)
    then have "heap s' ! (results ! j)
        = (\<lambda>(sim, idx). (heap s ! (idx_promotions s ! idx))\<lparr>score := Some sim\<rparr>) (pairs ! j)"
      using jp by (simp add: h nth_append)
    ultimately show "snd (pairs ! j) < length (idx_promotions s)
        \<and> heap s' ! (results ! j)
            = (heap s ! (idx_promotions s ! snd (pairs ! j)))\<lparr>score := Some (fst (pairs ! j))\<rparr>"
      by (simp add: split_def)
  qed
  from lr len pt lex dec show ?thesis
    by (simp only: lr [symmetric]) blast
qed

lemma search_frame_Inr:
  assumes "search rt query top_k user_profile s = Inr (results, s')"
    and "heap_ok s"
  shows "idx_promotions s' = idx_promotions s
         \<and> length (heap s) \<le> length (heap s')
         \<and> (\<forall>a < length (heap s). heap s' ! a = heap s ! a)
         \<and> (\<forall>a \<in> set (idx_promotions s). heap s' ! a = heap s ! a)
         \<and> (\<forall>r \<in> set results.
               length (heap s) \<le> r \<and> r < length (heap s')
               \<and> (\<exists>i sc. i < length (idx_promotions s)
                     \<and> heap s' ! r = (heap s ! (idx_promotions s ! i))\<lparr>score := Some sc\<rparr>))"
proof -
  from search_Inr [OF assms] obtain sims pairs where
    b: "\<forall>p \<in> set pairs. snd p < length (idx_promotions s)" and
    pr: "idx_promotions s' = idx_promotions s" and
    r: "results = [length (heap s) ..< length (heap s) + length pairs]" and
    h: "heap s' = heap s @
          map (\<lambda>(sim, idx). (heap s ! (idx_promotions s ! idx))\<lparr>score := Some sim\<rparr>) pairs"
    by blast
  have old: "\<forall>a < length (heap s). heap s' ! a = heap s ! a"
    by (simp add: h nth_append)
  from assms(2) have ok: "\<forall>a \<in> set (idx_promotions s). a < length (heap s)"
    by (simp add: heap_ok_def list_all_iff)
  with old have stored: "\<forall>a \<in> set (idx_promotions s). heap s' ! a = heap s ! a"
    by blast
  have new: "\<forall>r \<in> set results.
               length (heap s) \<le> r \<and> r < length (heap s')
               \<and> (\<exists>i sc. i < length (idx_promotions s)
                     \<and> heap s' ! r = (heap s ! (idx_promotions s ! i))\<lparr>score := Some sc\<rparr>)"
  proof
    fix a assume "a \<in> set results"
    then obtain j where j: "j < length pairs" and a: "a = length (heap s) + j"
      by (auto simp add: r intro: that [of "a - length (heap s)"])
    have "heap s' ! a
        = (\<lambda>(sim, idx). (heap s ! (idx_promotions s ! idx))\<lparr>score := Some sim\<rparr>) (pairs ! j)"
      using j by (simp add: h a nth_append)
    then have "heap s' ! a
        = (heap s ! (idx_promotions s ! snd (pairs ! j)))\<lparr>score := Some (fst (pairs ! j))\<rparr>"
      by (simp add: split_def)
    moreover have "snd (pairs ! j) < length (idx_promotions s)" using b j by auto
    moreover have "length (heap s) \<le> a \<and> a < length (heap s')" using j by (simp add: a h)
    ultimately show "length (heap s) \<le> a \<and> a < length (heap s')
               \<and> (\<exists>i sc. i < length (idx_promotions s)
                     \<and> heap s' ! a = (heap s ! (idx_promotions s ! i))\<lparr>score := Some sc\<rparr>)"
      by blast
  qed
  have "length (heap s) \<le> length (heap s')" by (simp add: h)
  with pr old stored new show ?thesis by blast
qed

lemma similarities_loop_total:
  assumes "rows_ok d (map snd xs)" and "length qe = d" and "np_linalg_norm qe \<noteq> 0"
    and "\<forall>i \<in> set (map fst xs). i < length proms"
  shows "\<exists>sims. similarities_loop qe prof proms hp xs = Inr sims"
  using assms(1,4)
proof (induction xs)
  case Nil
  show ?case by simp
next
  case (Cons x xs)
  obtain i e where x: "x = (i, e)" by (cases x)
  from Cons.prems have e: "length e = d" "np_linalg_norm e \<noteq> 0" and i: "i < length proms"
    by (simp_all add: x rows_ok_def)
  from Cons.prems have "rows_ok d (map snd xs)" "\<forall>i \<in> set (map fst xs). i < length proms"
    by (simp_all add: rows_ok_def)
  from Cons.IH [OF this] obtain rest where
    r: "similarities_loop qe prof proms hp xs = Inr rest" by blast
  have "\<exists>v. similarity qe e = Inr v"
    using e assms(2,3) by (simp add: similarity_def np_dot_def)
  then obtain v where v: "similarity qe e = Inr v" by blast
  show ?case using i by (simp add: x v r Let_def)
qed

lemma results_loop_total:
  "\<forall>p \<in> set pairs. snd p < length proms \<Longrightarrow>
     \<exists>results hp'. results_loop proms pairs hp = Inr (results, hp')"
proof (induction pairs arbitrary: hp)
  case Nil
  show ?case by simp
next
  case (Cons p pairs)
  obtain sim idx where p: "p = (sim, idx)" by (cases p)
  from Cons.prems have idx: "idx < length proms" and
    rest: "\<forall>p \<in> set pairs. snd p < length proms" by (simp_all add: p)
  from Cons.IH [OF rest, of "hp @ [(hp ! (proms ! idx))\<lparr>score := Some sim\<rparr>]"]
  obtain rs hp' where
    "results_loop proms pairs (hp @ [(hp ! (proms ! idx))\<lparr>score := Some sim\<rparr>]) = Inr (rs, hp')"
    by blast
  with idx show ?case by (simp add: p Let_def)
qed

lemma build_index_consistent:
  assumes "index_consistent rt d s"
  shows "index_consistent rt d (if \<not> idx_built s then build_index rt False s else s)
         \<and> (idx_promotions s \<noteq> [] \<longrightarrow>
               idx_built (if \<not> idx_built s then build_index rt False s else s))"
proof (cases "idx_built s \<or> idx_promotions s = []")
  case True
  with assms show ?thesis by (auto simp add: build_index_def)
next
  case False
  let ?texts = "map (\<lambda>a. dict_get (title (heap s ! a)) [] @ '' '' @
                          dict_get (description (heap s ! a)) []) (idx_promotions s)"
  obtain e g where enc: "encode rt (idx_embedder s) ?texts (rng s) = (e, g)"
    by (cases "encode rt (idx_embedder s) ?texts (rng s)")
  from assms have "encoder_ok rt (idx_embedder s) d" by (simp add: index_consistent_def)
  then have "length (fst (encode rt (idx_embedder s) ?texts (rng s))) = length ?texts"
    and "rows_ok d (fst (encode rt (idx_embedder s) ?texts (rng s)))"
    unfolding encoder_ok_def by blast+
  then have e: "length e = length (idx_promotions s)" "rows_ok d e"
    by (simp_all only: enc fst_conv length_map)
  from enc have enc':
    "encode rt (idx_embedder s)
       (map (\<lambda>a. dict_get (title (heap s ! a)) [] @ CHR '' '' # dict_get (description (heap s ! a)) [])
            (idx_promotions s)) (rng s) = (e, g)"
    by simp
  show ?thesis
  proof (cases "cache_file s \<noteq> None \<and> length (the (cache_file s)) = length (idx_promotions s)")
    case True
    with False assms show ?thesis
      by (auto simp add: build_index_def index_consistent_def heap_ok_def Let_def)
  next
    case nc: False
    with False assms e show ?thesis
      by (auto simp add: build_index_def index_consistent_def heap_ok_def Let_def enc')
  qed
qed

lemma py_slice_to_subset: "set (py_slice_to xs k) \<subseteq> set xs"
  by (auto simp add: py_slice_to_def dest: in_set_takeD)

lemma search_returns:
  assumes "index_consistent rt d s"
  shows "\<exists>results s'. search rt query top_k user_profile s = Inr (results, s')
           \<and> index_consistent rt d s'"
proof -
  define s1 where "s1 = (if \<not> idx_built s then build_index rt False s else s)"
  have fr: "idx_promotions s1 = idx_promotions s" "heap s1 = heap s"
    using build_index_frame [of rt False s] by (simp_all add: s1_def)
  have "index_consistent rt d s1 \<and> (idx_promotions s \<noteq> [] \<longrightarrow> idx_built s1)"
    unfolding s1_def by (rule build_index_consistent [OF assms])
  then have c1: "index_consistent rt d s1" and
    b1: "idx_promotions s \<noteq> [] \<longrightarrow> idx_built s1"
    by blast+
  note unf = search_unfold [OF s1_def, of query top_k user_profile]
  show ?thesis
  proof (cases "idx_promotions s1 = [] \<or> idx_embeddings s1 = None")
    case True
    then have "search rt query top_k user_profile s = Inr ([], s1)"
      by (simp add: unf)
    with c1 show ?thesis by blast
  next
    case False
    with b1 fr have built: "idx_built s1" by simp
    with c1 False obtain e where
      e: "idx_embeddings s1 = Some e" and le: "length e = length (idx_promotions s)" and
      re: "rows_ok d e"
      by (auto simp add: index_consistent_def fr split: option.splits)
    obtain encoded g where enc: "encode rt (idx_embedder s1) [query] (rng s1) = (encoded, g)"
      by (cases "encode rt (idx_embedder s1) [query] (rng s1)")
    from c1 have "encoder_ok rt (idx_embedder s1) d" by (simp add: index_consistent_def)
    then have "length (fst (encode rt (idx_embedder s1) [query] (rng s1))) = length [query]"
      and "rows_ok d (fst (encode rt (idx_embedder s1) [query] (rng s1)))"
      unfolding encoder_ok_def by blast+
    then have "length encoded = 1" and rq: "rows_ok d encoded"
      by (simp_all add: enc)
    then obtain qe where q: "encoded = [qe]"
      by (cases encoded) auto
    from rq have qe: "length qe = d" "np_linalg_norm qe \<noteq> 0"
      by (simp_all add: q rows_ok_def)
    have "\<exists>sims. similarities_loop qe user_profile (idx_promotions s) (heap s)
                   (enumerate 0 e) = Inr sims"
    proof (rule similarities_loop_total [OF _ qe])
      show "rows_ok d (map snd (enumerate 0 e))" using re by (simp add: enumerate_eq_zip)
      show "\<forall>i \<in> set (map fst (enumerate 0 e)). i < length (idx_promotions s)"
        by (simp add: enumerate_eq_zip le)
    qed
    then obtain sims where
      sl: "similarities_loop qe user_profile (idx_promotions s) (heap s) (enumerate 0 e) = Inr sims"
      by blast
    have ix: "map snd sims = [0 ..< length (idx_promotions s)]"
      using similarities_loop_indices [OF sl] by (simp add: enumerate_eq_zip le)
    let ?pairs = "py_slice_to (py_sort_reverse (\<lambda>t. t) sims) top_k"
    have "set ?pairs \<subseteq> set sims"
      using py_slice_to_subset [of "py_sort_reverse (\<lambda>t. t) sims" top_k]
      by (simp add: py_sort_reverse_def)
    then have "\<forall>p \<in> set ?pairs. snd p \<in> set (map snd sims)" by auto
    then have "\<forall>p \<in> set ?pairs. snd p < length (idx_promotions s)"
      by (simp add: ix)
    from results_loop_total [OF this, of "heap s"] obtain results hp where
      rl: "results_loop (idx_promotions s) ?pairs (heap s) = Inr (results, hp)" by blast
    from c1 have ok: "\<forall>a \<in> set (idx_promotions s). a < length (heap s)"
      by (simp add: index_consistent_def heap_ok_def list_all_iff fr)
    from results_loop_Inr [OF rl ok] have grow: "length (heap s) \<le> length hp" by simp
    have ret: "search rt query top_k user_profile s = Inr (results, s1\<lparr>rng := g, heap := hp\<rparr>)"
      using False by (simp add: unf enc q fr e sl rl)
    have "index_consistent rt d (s1\<lparr>rng := g, heap := hp\<rparr>)"
      using c1 ok grow
      by (auto simp add: index_consistent_def heap_ok_def list_all_iff fr split: option.splits)
    with ret show ?thesis by blast
  qed
qed

text \<open>
  Consistency is kept by the operations of the index: by \<^verbatim>\<open>add_promotions\<close> with
  references into the store, and by \<^verbatim>\<open>search\<close> (lemma \<open>search_returns\<close> above).
\<close>

lemma add_promotions_consistent:
  assumes "index_consistent rt d s" and "\<forall>a \<in> set new_promotions. a < length (heap s)"
  shows "index_consistent rt d (add_promotions new_promotions s)"
  using assms
  by (auto simp add: index_consistent_def add_promotions_def heap_ok_def list_all_iff)

subsection \<open>The sample index\<close>

lemmas search_eval_defs =
  search_def build_index_def encode_def initial_model_def sample_index_def
  sample_embeddings_def similarity_def np_dot_def np_linalg_norm_def py_sort_reverse_def
  py_slice_to_def profile_truthy_def Let_def dict_get_def enumerate_eq_zip upt_rec
  aws_ec2_1_def laptop_deal_1_def cloud_storage_1_def less_eq_prod_def less_prod_def

lemma sample_heap_ok: "heap_ok sample_index"
  by (simp add: heap_ok_def sample_index_def)

lemma sample_search_all:
  "search sample_runtime ''AWS cloud'' 10 None sample_index =
     Inr ([3, 4, 5],
          built_index\<lparr>heap := [aws_ec2_1, laptop_deal_1, cloud_storage_1,
                               aws_ec2_1\<lparr>score := Some 1\<rparr>,
                               cloud_storage_1\<lparr>score := Some (3 / 5)\<rparr>,
                               laptop_deal_1\<lparr>score := Some (3 / 5)\<rparr>]\<rparr>)"
  by (simp add: search_eval_defs built_index_def)

lemma sample_search_profile:
  "search sample_runtime ''AWS cloud'' 2 (Some test_profile) sample_index =
     Inr ([3, 4],
          built_index\<lparr>heap := [aws_ec2_1, laptop_deal_1, cloud_storage_1,
                               aws_ec2_1\<lparr>score := Some 1\<rparr>,
                               cloud_storage_1\<lparr>score := Some (18 / 25)\<rparr>]\<rparr>)"
  by (simp add: search_eval_defs built_index_def test_profile_def apply_user_profile_boost_def)

lemma initial_model_ok: "encoder_ok rt initial_model 2"
  by (auto simp add: encoder_ok_def encode_def initial_model_def rows_ok_def list_all_iff
      np_linalg_norm_def)

lemma sample_consistent: "index_consistent sample_runtime 2 sample_index"
  using initial_model_ok [of sample_runtime]
  by (simp add: index_consistent_def sample_heap_ok) (simp add: sample_index_def)

subsection \<open>Order and size of the result\<close>

text \<open>
  Claim C2, as the code has it. In a consistent index state \<^verbatim>\<open>search\<close> returns. Whenever
  it returns with \<open>top_k \<ge> 0\<close>, the result has at most \<open>min top_k N\<close> items, where
  \<open>N\<close> is the number of records of the index; each item is a stored record with its
  score; the scores are non-increasing; and of two items with the same score the one whose
  record was inserted later comes first, since the pairs \<^verbatim>\<open>(similarity, i)\<close> are sorted
  in descending tuple order. \<open>pairs\<close> is the list of score and record position of the
  items.
\<close>

theorem search_order:
  assumes "heap_ok s" and "0 \<le> top_k"
  shows "(index_consistent rt d s \<longrightarrow>
            (\<exists>results s'. search rt query top_k user_profile s = Inr (results, s')))
         \<and> (\<forall>results s'. search rt query top_k user_profile s = Inr (results, s') \<longrightarrow>
              (\<exists>pairs.
                 length pairs = length results
                 \<and> length results \<le> min (nat top_k) (length (idx_promotions s))
                 \<and> (\<forall>j < length results.
                       snd (pairs ! j) < length (idx_promotions s)
                       \<and> heap s' ! (results ! j)
                           = (heap s ! (idx_promotions s ! snd (pairs ! j)))
                               \<lparr>score := Some (fst (pairs ! j))\<rparr>)
                 \<and> sorted_wrt (\<lambda>p q. fst p > fst q \<or> (fst p = fst q \<and> snd p > snd q)) pairs
                 \<and> sorted_wrt (\<lambda>x y. x \<ge> y) (map fst pairs)))"
proof (intro conjI impI allI)
  assume "index_consistent rt d s"
  from search_returns [OF this, of query top_k user_profile]
  show "\<exists>results s'. search rt query top_k user_profile s = Inr (results, s')" by blast
next
  fix results s'
  assume "search rt query top_k user_profile s = Inr (results, s')"
  from search_order_Inr [OF this assms]
  show "\<exists>pairs.
          length pairs = length results
          \<and> length results \<le> min (nat top_k) (length (idx_promotions s))
          \<and> (\<forall>j < length results.
                snd (pairs ! j) < length (idx_promotions s)
                \<and> heap s' ! (results ! j)
                    = (heap s ! (idx_promotions s ! snd (pairs ! j)))
                        \<lparr>score := Some (fst (pairs ! j))\<rparr>)
          \<and> sorted_wrt (\<lambda>p q. fst p > fst q \<or> (fst p = fst q \<and> snd p > snd q)) pairs
          \<and> sorted_wrt (\<lambda>x y. x \<ge> y) (map fst pairs)" .
qed

theorem search_order_witness:
  "heap_ok sample_index \<and> (0 :: int) \<le> 10 \<and> index_consistent sample_runtime 2 sample_index
   \<and> search sample_runtime ''AWS cloud'' 10 None sample_index =
       Inr ([3, 4, 5],
            built_index\<lparr>heap := [aws_ec2_1, laptop_deal_1, cloud_storage_1,
                                 aws_ec2_1\<lparr>score := Some 1\<rparr>,
                                 cloud_storage_1\<lparr>score := Some (3 / 5)\<rparr>,
                                 laptop_deal_1\<lparr>score := Some (3 / 5)\<rparr>]\<rparr>)
   \<and> length [3, 4, 5 :: nat] \<le> min (nat 10) (length (idx_promotions sample_index))"
proof -
  have k: "(0 :: int) \<le> 10" by simp
  note t = search_order [OF sample_heap_ok k, of sample_runtime 2 "''AWS cloud''" None,
      THEN conjunct2, rule_format, OF sample_search_all]
  then have "length [3, 4, 5 :: nat] \<le> min (nat 10) (length (idx_promotions sample_index))"
    by blast
  with sample_heap_ok k sample_consistent sample_search_all show ?thesis by blast
qed

text \<open>
  The statement of C2 fails in two places. Two records of equal score come out in the
  reverse of their insertion order: \<open>cloud_storage_1\<close>, inserted third, precedes
  \<open>laptop_deal_1\<close>, inserted second, both with the score \<open>3/5\<close>. And with the negative
  \<open>top_k = -1\<close> the slice \<^verbatim>\<open>similarities[:top_k]\<close> keeps all but the last item, two
  results, more than \<open>min (-1) 3\<close>.
\<close>

theorem search_order_counterexample:
  "idx_promotions sample_index = [0, 1, 2]
   \<and> heap sample_index = [aws_ec2_1, laptop_deal_1, cloud_storage_1]
   \<and> search sample_runtime ''AWS cloud'' 10 None sample_index =
       Inr ([3, 4, 5],
            built_index\<lparr>heap := [aws_ec2_1, laptop_deal_1, cloud_storage_1,
                                 aws_ec2_1\<lparr>score := Some 1\<rparr>,
                                 cloud_storage_1\<lparr>score := Some (3 / 5)\<rparr>,
                                 laptop_deal_1\<lparr>score := Some (3 / 5)\<rparr>]\<rparr>)
   \<and> search sample_runtime ''AWS cloud'' (- 1) None sample_index =
       Inr ([3, 4],
            built_index\<lparr>heap := [aws_ec2_1, laptop_deal_1, cloud_storage_1,
                                 aws_ec2_1\<lparr>score := Some 1\<rparr>,
                                 cloud_storage_1\<lparr>score := Some (3 / 5)\<rparr>]\<rparr>)
   \<and> \<not> int (length [3, 4 :: nat]) \<le> min (- 1) (int (length (idx_promotions sample_index)))"
  by (simp add: search_eval_defs built_index_def)

subsection \<open>The stored records are left as they are\<close>

text \<open>
  Claim C10. In a consistent index state \<^verbatim>\<open>search\<close> returns. Whenever it returns, the
  index holds the same references as before, every dictionary that existed before the
  call is unchanged, in particular every stored record (none gains a score), and every
  returned item is a new dictionary: a copy of a stored record with the key
  \<^verbatim>\<open>score\<close> set.
\<close>

theorem search_frame:
  assumes "heap_ok s"
  shows "(index_consistent rt d s \<longrightarrow>
            (\<exists>results s'. search rt query top_k user_profile s = Inr (results, s')))
         \<and> (\<forall>results s'. search rt query top_k user_profile s = Inr (results, s') \<longrightarrow>
               idx_promotions s' = idx_promotions s
               \<and> length (heap s) \<le> length (heap s')
               \<and> (\<forall>a < length (heap s). heap s' ! a = heap s ! a)
               \<and> (\<forall>a \<in> set (idx_promotions s). heap s' ! a = heap s ! a)
               \<and> (\<forall>r \<in> set results.
                     length (heap s) \<le> r \<and> r < length (heap s')
                     \<and> (\<exists>i sc. i < length (idx_promotions s)
                           \<and> heap s' ! r = (heap s ! (idx_promotions s ! i))\<lparr>score := Some sc\<rparr>)))"
proof (rule conjI)
  show "index_consistent rt d s \<longrightarrow>
          (\<exists>results s'. search rt query top_k user_profile s = Inr (results, s'))"
    using search_returns [of rt d s query top_k user_profile] by blast
next
  show "\<forall>results s'. search rt query top_k user_profile s = Inr (results, s') \<longrightarrow>
               idx_promotions s' = idx_promotions s
               \<and> length (heap s) \<le> length (heap s')
               \<and> (\<forall>a < length (heap s). heap s' ! a = heap s ! a)
               \<and> (\<forall>a \<in> set (idx_promotions s). heap s' ! a = heap s ! a)
               \<and> (\<forall>r \<in> set results.
                     length (heap s) \<le> r \<and> r < length (heap s')
                     \<and> (\<exists>i sc. i < length (idx_promotions s)
                           \<and> heap s' ! r = (heap s ! (idx_promotions s ! i))\<lparr>score := Some sc\<rparr>))"
    by (intro allI impI) (rule search_frame_Inr [OF _ assms])
qed

theorem search_frame_witness:
  "heap_ok sample_index \<and> index_consistent sample_runtime 2 sample_index
   \<and> search sample_runtime ''AWS cloud'' 2 (Some test_profile) sample_index =
       Inr ([3, 4],
            built_index\<lparr>heap := [aws_ec2_1, laptop_deal_1, cloud_storage_1,
                                 aws_ec2_1\<lparr>score := Some 1\<rparr>,
                                 cloud_storage_1\<lparr>score := Some (18 / 25)\<rparr>]\<rparr>)
   \<and> idx_promotions
        (built_index\<lparr>heap := [aws_ec2_1, laptop_deal_1, cloud_storage_1,
                               aws_ec2_1\<lparr>score := Some 1\<rparr>,
                               cloud_storage_1\<lparr>score := Some (18 / 25)\<rparr>]\<rparr>)
       = idx_promotions sample_index
   \<and> length (heap sample_index)
       \<le> length (heap (built_index\<lparr>heap := [aws_ec2_1, laptop_deal_1, cloud_storage_1,
                               aws_ec2_1\<lparr>score := Some 1\<rparr>,
                               cloud_storage_1\<lparr>score := Some (18 / 25)\<rparr>]\<rparr>))"
proof -
  note t = search_frame [OF sample_heap_ok, of sample_runtime 2 "''AWS cloud''" 2
      "Some test_profile", THEN conjunct2, rule_format, OF sample_search_profile]
  with sample_heap_ok sample_consistent sample_search_profile show ?thesis by blast
qed


end
